theory Spec2Isabelle
  imports Main
begin

section \<open>Values, exceptions and the operations of Python the program uses\<close>

text \<open>
  The program (\<^verbatim>\<open>src/main.py\<close>) reads JSON documents of the YouTube API with
  Python's subscripting, \<^verbatim>\<open>in\<close> and \<^verbatim>\<open>for\<close>. A parsed document is a
  value of \<open>json\<close>; Python's \<^verbatim>\<open>None\<close> is \<open>JNull\<close>, as \<^verbatim>\<open>json.loads\<close> has it.
  Numbers are integers (the program reads no fraction). An object is the dict that
  \<^verbatim>\<open>json.loads\<close> built, as the list of its bindings in their order; a key is looked
  up with \<open>map_of\<close>, so that of two bindings of one key only the first is seen.
\<close>

datatype json =
    JNull
  | JBool bool
  | JNum int
  | JStr string
  | JArr "json list"
  | JObj "(string \<times> json) list"

text \<open>
  Every exception the modelled code can raise is a value. \<open>NoResponse\<close> is not an
  exception: it says that the script of the network (below) has run out, where the
  program would wait in \<^verbatim>\<open>stubborn_request\<close> for ever.
\<close>

datatype error =
    KeyError
  | IndexError
  | TypeError
  | AttributeError
  | ValueError
  | JSONDecodeError
  | SystemExit string
  | NoResponse

text \<open>\<^verbatim>\<open>d[k]\<close> with a string \<open>k\<close>: only a dict has string keys.\<close>

fun getitem :: "json \<Rightarrow> string \<Rightarrow> error + json" where
  "getitem (JObj kvs) k = (case map_of kvs k of None \<Rightarrow> Inl KeyError | Some v \<Rightarrow> Inr v)"
| "getitem _ k = Inl TypeError"

text \<open>\<^verbatim>\<open>x[0]\<close>: the first element of a list, the first character of a string; a dict
  parsed from JSON has no key \<open>0\<close>.\<close>

fun getitem0 :: "json \<Rightarrow> error + json" where
  "getitem0 (JArr []) = Inl IndexError"
| "getitem0 (JArr (x # xs)) = Inr x"
| "getitem0 (JStr []) = Inl IndexError"
| "getitem0 (JStr (c # cs)) = Inr (JStr [c])"
| "getitem0 (JObj kvs) = Inl KeyError"
| "getitem0 _ = Inl TypeError"

text \<open>\<^verbatim>\<open>sub in s\<close> on strings: \<open>sub\<close> occurs in \<open>s\<close> as a contiguous piece.\<close>

fun is_prefix :: "string \<Rightarrow> string \<Rightarrow> bool" where
  "is_prefix [] s = True"
| "is_prefix (c # cs) [] = False"
| "is_prefix (c # cs) (d # ds) = (c = d \<and> is_prefix cs ds)"

fun is_substring :: "string \<Rightarrow> string \<Rightarrow> bool" where
  "is_substring sub [] = (sub = [])"
| "is_substring sub (d # ds) = (is_prefix sub (d # ds) \<or> is_substring sub ds)"

text \<open>\<^verbatim>\<open>k in x\<close> with a string \<open>k\<close>: a key of a dict, an element of a list, a piece of
  a string; \<^verbatim>\<open>None\<close>, a bool and a number are not iterable.\<close>

fun contains :: "string \<Rightarrow> json \<Rightarrow> error + bool" where
  "contains k (JObj kvs) = Inr (k \<in> set (map fst kvs))"
| "contains k (JArr xs) = Inr (JStr k \<in> set xs)"
| "contains k (JStr s) = Inr (is_substring k s)"
| "contains k _ = Inl TypeError"

text \<open>\<^verbatim>\<open>for item in x\<close>: the elements of a list, the keys of a dict (each once), the
  characters of a string.\<close>

fun iterate :: "json \<Rightarrow> error + json list" where
  "iterate (JArr xs) = Inr xs"
| "iterate (JObj kvs) = Inr (map JStr (remdups (map fst kvs)))"
| "iterate (JStr s) = Inr (map (\<lambda>c. JStr [c]) s)"
| "iterate _ = Inl TypeError"

text \<open>\<^verbatim>\<open>len(x)\<close>.\<close>

fun py_len :: "json \<Rightarrow> error + nat" where
  "py_len (JArr xs) = Inr (length xs)"
| "py_len (JObj kvs) = Inr (length (remdups (map fst kvs)))"
| "py_len (JStr s) = Inr (length s)"
| "py_len _ = Inl TypeError"

text \<open>\<^verbatim>\<open>buffer[i]\<close> on a Python list with an index that is not negative.\<close>

definition index :: "'a list \<Rightarrow> nat \<Rightarrow> error + 'a" where
  "index xs i = (if i < length xs then Inr (xs ! i) else Inl IndexError)"

text \<open>\<^verbatim>\<open>s.replace(old, new)\<close> for a single character \<open>old\<close>: every occurrence is
  replaced.\<close>

definition replace :: "char \<Rightarrow> string \<Rightarrow> string \<Rightarrow> string" where
  "replace old new s = concat (map (\<lambda>c. if c = old then new else [c]) s)"

text \<open>Decimal digits of a number, as an f-string prints an \<^verbatim>\<open>int\<close>.\<close>

definition digit :: "nat \<Rightarrow> char" where
  "digit n = ''0123456789abcdef'' ! n"

fun show_nat :: "nat \<Rightarrow> string" where
  "show_nat n =
     (if n < 10 then [digit n]
      else show_nat (n div 10) @ [digit (n mod 10)])"

declare show_nat.simps [simp del]

definition show_int :: "int \<Rightarrow> string" where
  "show_int i = (if i < 0 then CHR ''-'' # show_nat (nat (- i)) else show_nat (nat i))"

text \<open>\<^verbatim>\<open>sep.join\<close> on strings.\<close>

fun join_strs :: "string \<Rightarrow> string list \<Rightarrow> string" where
  "join_strs sep [] = []"
| "join_strs sep [x] = x"
| "join_strs sep (x # y # ys) = x @ sep @ join_strs sep (y # ys)"

text \<open>\<^verbatim>\<open>repr\<close> of a string: Python quotes with \<^verbatim>\<open>'\<close> unless the string has a
  \<^verbatim>\<open>'\<close> and no \<^verbatim>\<open>"\<close>; it escapes the quote, the backslash and the control
  characters. A byte above 127 (a piece of a UTF-8 character) is kept as it is, also
  where it belongs to a character that Python does not print and writes as an escape.\<close>

definition repr_char :: "char \<Rightarrow> char \<Rightarrow> string" where
  "repr_char q c =
     (if c = q \<or> c = CHR 0x5C then [CHR 0x5C, c]
      else if c = CHR 0x09 then [CHR 0x5C, CHR ''t'']
      else if c = CHR 0x0A then [CHR 0x5C, CHR ''n'']
      else if c = CHR 0x0D then [CHR 0x5C, CHR ''r'']
      else if (of_char c :: nat) < 32 \<or> c = CHR 0x7F
        then [CHR 0x5C, CHR ''x'', digit (of_char c div 16), digit (of_char c mod 16)]
      else [c])"

definition repr_str :: "string \<Rightarrow> string" where
  "repr_str s =
     (let q = (if CHR 0x27 \<in> set s \<and> CHR 0x22 \<notin> set s then CHR 0x22 else CHR 0x27)
      in [q] @ concat (map (repr_char q) s) @ [q])"

text \<open>\<^verbatim>\<open>repr\<close> of a parsed JSON value.\<close>

fun repr :: "json \<Rightarrow> string" where
  "repr JNull = ''None''"
| "repr (JBool b) = (if b then ''True'' else ''False'')"
| "repr (JNum n) = show_int n"
| "repr (JStr s) = repr_str s"
| "repr (JArr xs) = ''['' @ join_strs '', '' (map repr xs) @ '']''"
| "repr (JObj kvs) =
     ''{'' @ join_strs '', '' (map (\<lambda>kv. repr_str (fst kv) @ '': '' @ repr (snd kv)) kvs) @ ''}''"

text \<open>\<^verbatim>\<open>f"{v}"\<close>: \<^verbatim>\<open>str(v)\<close>, which prints a string as it is and any other
  JSON value as \<^verbatim>\<open>repr\<close> does.\<close>

fun format :: "json \<Rightarrow> string" where
  "format (JStr s) = s"
| "format v = repr v"

text \<open>\<^verbatim>\<open>sep.join(xs)\<close>: every member must be a \<^verbatim>\<open>str\<close>.\<close>

fun the_strs :: "json list \<Rightarrow> error + string list" where
  "the_strs [] = Inr []"
| "the_strs (JStr s # xs) = (case the_strs xs of Inl e \<Rightarrow> Inl e | Inr ss \<Rightarrow> Inr (s # ss))"
| "the_strs (_ # xs) = Inl TypeError"

definition join :: "string \<Rightarrow> json list \<Rightarrow> error + string" where
  "join sep xs = (case the_strs xs of Inl e \<Rightarrow> Inl e | Inr ss \<Rightarrow> Inr (join_strs sep ss))"

section \<open>The network and the state of a run\<close>

text \<open>
  A response of \<^verbatim>\<open>requests.get\<close>: its status code, what \<^verbatim>\<open>.json()\<close> returns
  (\<open>None\<close> where the body is no JSON document and \<^verbatim>\<open>.json()\<close> raises), and, for a
  channel's HTML page, the \<^verbatim>\<open>href\<close> that BeautifulSoup finds on the canonical
  link element of \<^verbatim>\<open>.text\<close> (\<open>None\<close> where that lookup raises).
\<close>

record response =
  status_code :: int
  body :: "json option"
  canonical_href :: "string option"

text \<open>
  One call of \<^verbatim>\<open>requests.get\<close> either raises one of the exceptions that
  \<^verbatim>\<open>stubborn_request\<close> catches, or returns a response.
\<close>

datatype net_error = HTTPError | ConnectionError | Timeout | RequestException

datatype attempt = Raises net_error | Responds response

text \<open>
  The state of a run: the global \<^verbatim>\<open>api_request_allow\<close>; \<open>net\<close>, what the calls
  of \<^verbatim>\<open>requests.get\<close> still to come will do, in order; \<open>fetched\<close>, the url of
  every call of \<^verbatim>\<open>stubborn_request\<close> so far; \<open>stdout\<close>, the strings printed so
  far, one per \<^verbatim>\<open>print\<close>; \<open>files\<close>, the files written so far with the document
  each holds.
\<close>

record world =
  api_request_allow :: bool
  net :: "attempt list"
  fetched :: "string list"
  stdout :: "string list"
  files :: "(string \<times> json) list"

definition print :: "string \<Rightarrow> world \<Rightarrow> world" where
  "print m s = s\<lparr>stdout := stdout s @ [m]\<rparr>"

section \<open>\<^verbatim>\<open>stubborn_request\<close> and \<^verbatim>\<open>api_get_request\<close>\<close>

fun retry_message :: "net_error \<Rightarrow> string" where
  "retry_message HTTPError = ''Http error... Retry''"
| "retry_message ConnectionError = ''Connection error... Retry''"
| "retry_message Timeout = ''Timeout error... Retry''"
| "retry_message RequestException = ''Request error... Retry''"

text \<open>The \<^verbatim>\<open>while response is None\<close> loop: one attempt of the script per turn,
  with the line printed before the next attempt. The wait between two attempts is not
  part of the state. An exception that is none of \<^verbatim>\<open>requests\<close>' is outside the
  script.\<close>

fun attempts :: "attempt list \<Rightarrow> string list \<Rightarrow> (error + response) \<times> attempt list \<times> string list" where
  "attempts [] ms = (Inl NoResponse, [], ms)"
| "attempts (Responds r # rest) ms = (Inr r, rest, ms)"
| "attempts (Raises e # rest) ms = attempts rest (ms @ [retry_message e])"

definition stubborn_request :: "string \<Rightarrow> world \<Rightarrow> (error + response) \<times> world" where
  "stubborn_request url s =
     (case attempts (net s) (stdout s) of
        (r, rest, ms) \<Rightarrow> (r, s\<lparr>net := rest, fetched := fetched s @ [url], stdout := ms\<rparr>))"

text \<open>The second \<^verbatim>\<open>if\<close> of \<^verbatim>\<open>api_get_request\<close>, entered with the gate closed.
  The value \<^verbatim>\<open>False\<close> is \<open>None\<close>; \<^verbatim>\<open>sys.exit("exit")\<close> raises
  \<^verbatim>\<open>SystemExit\<close>.\<close>

definition gate_closed :: "bool \<Rightarrow> world \<Rightarrow> (error + response option) \<times> world" where
  "gate_closed exit_if_not s =
     (let s1 = print ''\<newline>Api response error!\<newline>'' s
      in if exit_if_not then (Inl (SystemExit ''exit''), s1) else (Inr None, s1))"

definition api_get_request :: "string \<Rightarrow> bool \<Rightarrow> world \<Rightarrow> (error + response option) \<times> world" where
  "api_get_request url exit_if_not s =
     (if api_request_allow s then
        (case stubborn_request url s of
           (Inl e, s1) \<Rightarrow> (Inl e, s1)
         | (Inr resp, s1) \<Rightarrow>
             if status_code resp \<noteq> 200
             then gate_closed exit_if_not (s1\<lparr>api_request_allow := False\<rparr>)
             else (Inr (Some resp), s1))
      else gate_closed exit_if_not s)"

text \<open>\<^verbatim>\<open>response.json()\<close>.\<close>

definition json_of :: "response \<Rightarrow> error + json" where
  "json_of r = (case body r of None \<Rightarrow> Inl JSONDecodeError | Some j \<Rightarrow> Inr j)"

section \<open>\<^verbatim>\<open>get_videos_list\<close>\<close>

text \<open>\<^verbatim>\<open>item[a][k] if k in item[a] else None\<close>, evaluated in Python's order: first
  \<^verbatim>\<open>item[a]\<close>, then the membership test, then the subscript.\<close>

definition field :: "json \<Rightarrow> string \<Rightarrow> string \<Rightarrow> error + json" where
  "field item a k =
     (case getitem item a of
        Inl e \<Rightarrow> Inl e
      | Inr d \<Rightarrow>
          (case contains k d of
             Inl e \<Rightarrow> Inl e
           | Inr present \<Rightarrow> if present then getitem d k else Inr JNull))"

text \<open>\<^verbatim>\<open>v.replace('T', ' ').replace('Z', '')\<close>: only a \<^verbatim>\<open>str\<close> has
  \<^verbatim>\<open>replace\<close>.\<close>

fun strip_TZ :: "json \<Rightarrow> error + json" where
  "strip_TZ (JStr v) = Inr (JStr (replace (CHR ''Z'') [] (replace (CHR ''T'') '' '' v)))"
| "strip_TZ _ = Inl AttributeError"

definition publish_time_of :: "json \<Rightarrow> error + json" where
  "publish_time_of item =
     (case getitem item ''snippet'' of
        Inl e \<Rightarrow> Inl e
      | Inr d \<Rightarrow>
          (case contains ''publishedAt'' d of
             Inl e \<Rightarrow> Inl e
           | Inr present \<Rightarrow>
               if present
               then (case getitem d ''publishedAt'' of Inl e \<Rightarrow> Inl e | Inr v \<Rightarrow> strip_TZ v)
               else Inr JNull))"

record buffers =
  title_buffer :: "json list"
  description_buffer :: "json list"
  video_id_buffer :: "json list"
  publish_time_buffer :: "json list"

definition no_buffers :: buffers where
  "no_buffers =
     \<lparr>title_buffer = [], description_buffer = [], video_id_buffer = [], publish_time_buffer = []\<rparr>"

text \<open>The four fields of one playlist item, in the order the source computes them.\<close>

definition item_fields :: "json \<Rightarrow> error + (json \<times> json \<times> json \<times> json)" where
  "item_fields item =
     (case field item ''snippet'' ''title'' of
        Inl e \<Rightarrow> Inl e
      | Inr t \<Rightarrow>
     (case field item ''snippet'' ''description'' of
        Inl e \<Rightarrow> Inl e
      | Inr d \<Rightarrow>
     (case field item ''contentDetails'' ''videoId'' of
        Inl e \<Rightarrow> Inl e
      | Inr v \<Rightarrow>
     (case publish_time_of item of
        Inl e \<Rightarrow> Inl e
      | Inr p \<Rightarrow> Inr (t, d, v, p)))))"

definition append_fields :: "buffers \<Rightarrow> json \<times> json \<times> json \<times> json \<Rightarrow> buffers" where
  "append_fields b f =
     (case f of (t, d, v, p) \<Rightarrow>
        \<lparr>title_buffer = title_buffer b @ [t],
         description_buffer = description_buffer b @ [d],
         video_id_buffer = video_id_buffer b @ [v],
         publish_time_buffer = publish_time_buffer b @ [p]\<rparr>)"

text \<open>The loop \<^verbatim>\<open>for item in json_response["items"]\<close>, with the buffers and
  \<^verbatim>\<open>total_counter\<close> it updates.\<close>

fun parse_items :: "json list \<Rightarrow> buffers \<Rightarrow> nat \<Rightarrow> error + (buffers \<times> nat)" where
  "parse_items [] b total_counter = Inr (b, total_counter)"
| "parse_items (item # items) b total_counter =
     (case getitem item ''kind'' of
        Inl e \<Rightarrow> Inl e
      | Inr k \<Rightarrow>
          if k = JStr ''youtube#playlistItem''
          then (case item_fields item of
                  Inl e \<Rightarrow> Inl e
                | Inr f \<Rightarrow> parse_items items (append_fields b f) (total_counter + 1))
          else parse_items items b total_counter)"

text \<open>One entry of \<^verbatim>\<open>videos_list\<close>.\<close>

record video =
  title :: json
  link :: string
  publish_time :: json
  views :: json
  likes :: json
  comments_number :: json
  description :: json

definition youtube_link :: string where
  "youtube_link = ''https://www.youtube.com/watch?v=''"

text \<open>The body of \<^verbatim>\<open>for i, video in enumerate(...)\<close>: the three statistics, then
  the dict, whose values are evaluated in the order they are written.\<close>

definition make_video :: "buffers \<Rightarrow> nat \<Rightarrow> json \<Rightarrow> error + video" where
  "make_video b i v =
     (case field v ''statistics'' ''viewCount'' of Inl e \<Rightarrow> Inl e | Inr vi \<Rightarrow>
     (case field v ''statistics'' ''likeCount'' of Inl e \<Rightarrow> Inl e | Inr li \<Rightarrow>
     (case field v ''statistics'' ''commentCount'' of Inl e \<Rightarrow> Inl e | Inr co \<Rightarrow>
     (case index (title_buffer b) i of Inl e \<Rightarrow> Inl e | Inr t \<Rightarrow>
     (case index (video_id_buffer b) i of Inl e \<Rightarrow> Inl e | Inr vid \<Rightarrow>
     (case index (publish_time_buffer b) i of Inl e \<Rightarrow> Inl e | Inr p \<Rightarrow>
     (case index (description_buffer b) i of Inl e \<Rightarrow> Inl e | Inr d \<Rightarrow>
        Inr \<lparr>title = t, link = youtube_link @ format vid, publish_time = p,
             views = vi, likes = li, comments_number = co, description = d\<rparr>)))))))"

fun statistics_loop :: "json list \<Rightarrow> nat \<Rightarrow> buffers \<Rightarrow> video list \<Rightarrow> error + video list" where
  "statistics_loop [] i b videos_list = Inr videos_list"
| "statistics_loop (v # vs) i b videos_list =
     (case make_video b i v of
        Inl e \<Rightarrow> Inl e
      | Inr r \<Rightarrow> statistics_loop vs (i + 1) b (videos_list @ [r]))"

text \<open>The two urls of a turn. \<^verbatim>\<open>playlist_id\<close> is what the channel lookup returned,
  whatever its type.\<close>

definition playlist_url :: "json \<Rightarrow> int \<Rightarrow> string \<Rightarrow> string \<Rightarrow> string \<Rightarrow> string" where
  "playlist_url playlist_id max_results api_key get_play_list_url page_token =
     get_play_list_url @ ''key='' @ api_key @ ''&playlistId='' @ format playlist_id
       @ ''&part=snippet,id,contentDetails&maxResults='' @ show_int max_results @ page_token"

definition statistics_url :: "int \<Rightarrow> string \<Rightarrow> string \<Rightarrow> string \<Rightarrow> string" where
  "statistics_url max_results api_key get_videos_url videos_id_str =
     get_videos_url @ ''key='' @ api_key @ ''&maxResults='' @ show_int max_results
       @ ''&part=statistics&id='' @ videos_id_str"

text \<open>\<^verbatim>\<open>next_token_url_part + json_response["nextPageToken"]\<close>: \<^verbatim>\<open>+\<close> on a
  \<^verbatim>\<open>str\<close> takes only a \<^verbatim>\<open>str\<close>.\<close>

fun next_page_token :: "json \<Rightarrow> error + string" where
  "next_page_token (JStr t) = Inr (''&pageToken='' @ t)"
| "next_page_token _ = Inl TypeError"

text \<open>What one turn of \<^verbatim>\<open>while run\<close> leaves: it has returned \<^verbatim>\<open>videos_list\<close>,
  or it reaches the loop test again with \<^verbatim>\<open>run\<close>, \<^verbatim>\<open>page_token\<close>,
  \<^verbatim>\<open>videos_list\<close> and \<^verbatim>\<open>total_counter\<close>.\<close>

datatype turn = Returned "video list" | Again bool string "video list" nat

text \<open>The part of a turn after the statistics response has arrived.\<close>

definition append_page ::
  "json \<Rightarrow> buffers \<Rightarrow> nat \<Rightarrow> string \<Rightarrow> video list \<Rightarrow> response \<Rightarrow> world \<Rightarrow> (error + turn) \<times> world" where
  "append_page json_response b total_counter page_token videos_list videos_statistics_response s =
     (case json_of videos_statistics_response of Inl e \<Rightarrow> (Inl e, s) | Inr videos_statistics_json \<Rightarrow>
     (case getitem videos_statistics_json ''items'' of Inl e \<Rightarrow> (Inl e, s) | Inr sitems \<Rightarrow>
     (case iterate sitems of Inl e \<Rightarrow> (Inl e, s) | Inr vs \<Rightarrow>
     (case statistics_loop vs 0 b videos_list of Inl e \<Rightarrow> (Inl e, s) | Inr videos_list' \<Rightarrow>
     (let s1 = print (''Parsed '' @ show_nat total_counter @ '' videos'') s in
     (case contains ''nextPageToken'' json_response of Inl e \<Rightarrow> (Inl e, s1) | Inr has_next \<Rightarrow>
        if has_next
        then (case getitem json_response ''nextPageToken'' of Inl e \<Rightarrow> (Inl e, s1) | Inr t \<Rightarrow>
             (case next_page_token t of Inl e \<Rightarrow> (Inl e, s1) | Inr page_token' \<Rightarrow>
                (Inr (Again True page_token' videos_list' total_counter), s1)))
        else (Inr (Again False page_token videos_list' total_counter), s1)))))))"

text \<open>One turn of \<^verbatim>\<open>while run\<close>.\<close>

definition turn_of ::
  "json \<Rightarrow> int \<Rightarrow> string \<Rightarrow> string \<Rightarrow> string \<Rightarrow> string \<Rightarrow> video list \<Rightarrow> nat \<Rightarrow> world
     \<Rightarrow> (error + turn) \<times> world" where
  "turn_of playlist_id max_results api_key get_play_list_url get_videos_url
       page_token videos_list total_counter s =
     (case api_get_request
             (playlist_url playlist_id max_results api_key get_play_list_url page_token) False s of
        (Inl e, s1) \<Rightarrow> (Inl e, s1)
      | (Inr None, s1) \<Rightarrow> (Inr (Returned videos_list), s1)
      | (Inr (Some resp), s1) \<Rightarrow>
     (case json_of resp of Inl e \<Rightarrow> (Inl e, s1) | Inr json_response \<Rightarrow>
     (case getitem json_response ''items'' of Inl e \<Rightarrow> (Inl e, s1) | Inr items \<Rightarrow>
     (case iterate items of Inl e \<Rightarrow> (Inl e, s1) | Inr its \<Rightarrow>
     (case parse_items its no_buffers total_counter of Inl e \<Rightarrow> (Inl e, s1) | Inr (b, total_counter') \<Rightarrow>
     (case join '','' (video_id_buffer b) of Inl e \<Rightarrow> (Inl e, s1) | Inr videos_id_str \<Rightarrow>
     (case api_get_request
             (statistics_url max_results api_key get_videos_url videos_id_str) False s1 of
        (Inl e, s2) \<Rightarrow> (Inl e, s2)
      | (Inr None, s2) \<Rightarrow> (Inr (Returned videos_list), s2)
      | (Inr (Some videos_statistics_response), s2) \<Rightarrow>
          append_page json_response b total_counter' page_token videos_list
            videos_statistics_response s2)))))))"

text \<open>Every turn that comes back to the loop test has taken a response from the
  network: this is what makes the loop below a total function.\<close>

lemma attempts_shorter: "attempts n ms = (Inr r, rest, ms') \<Longrightarrow> length rest < length n"
  by (induction n ms rule: attempts.induct) auto

lemma attempts_le: "length (fst (snd (attempts n ms))) \<le> length n"
  by (induction n ms rule: attempts.induct) auto

lemma stubborn_request_shorter:
  "stubborn_request url s = (Inr r, s') \<Longrightarrow> length (net s') < length (net s)"
  by (auto simp: stubborn_request_def split: prod.splits dest: attempts_shorter)

lemma stubborn_request_le: "length (net (snd (stubborn_request url s))) \<le> length (net s)"
  using attempts_le [of "net s" "stdout s"]
  by (auto simp: stubborn_request_def split: prod.split)

lemma gate_closed_net: "net (snd (gate_closed b s)) = net s"
  by (simp add: gate_closed_def print_def Let_def)

lemma api_get_request_shorter:
  "api_get_request url b s = (Inr (Some r), s') \<Longrightarrow> length (net s') < length (net s)"
  by (auto simp: api_get_request_def gate_closed_def Let_def
      split: if_splits prod.splits sum.splits dest: stubborn_request_shorter)

lemma api_get_request_le: "length (net (snd (api_get_request url b s))) \<le> length (net s)"
  using stubborn_request_le [of url s]
  by (auto simp: api_get_request_def gate_closed_net split: prod.split sum.split)

lemma append_page_net: "net (snd (append_page j b tc tok vl r s)) = net s"
  unfolding append_page_def Let_def print_def
  by (simp split: sum.split)

lemma turn_of_cases:
  "case turn_of pid mr key lurl vurl tok vl tc s of
     (Inr (Again run' tok' vl' tc'), s') \<Rightarrow> length (net s') < length (net s)
   | _ \<Rightarrow> True"
proof -
  have shorter: "length (net s2) < length (net s)"
    if "api_get_request u1 False s = (Inr (Some r1), s1)"
      and "api_get_request u2 False s1 = (x, s2)" for u1 u2 r1 s1 x s2
    using api_get_request_shorter [OF that(1)] api_get_request_le [of u2 False s1] that(2)
    by simp
  have same: "net s3 = net s2"
    if "append_page j b n tok vl r s2 = (y, s3)" for j b n r s2 y s3
    using append_page_net [of j b n tok vl r s2] that by simp
  show ?thesis
    unfolding turn_of_def
    by (auto split: prod.split sum.split option.split turn.split dest!: same dest: shorter)
qed

lemma turn_of_shorter:
  "(Inr (Again run' tok' vl' tc'), s') = turn_of pid mr key lurl vurl tok vl tc s
     \<Longrightarrow> length (net s') < length (net s)"
  using turn_of_cases [where pid = pid and mr = mr and key = key and lurl = lurl
      and vurl = vurl and tok = tok and vl = vl and tc = tc and s = s]
  by (simp add: eq_commute [of "(Inr (Again run' tok' vl' tc'), s')"])

text \<open>The loop \<^verbatim>\<open>while run\<close> and the \<^verbatim>\<open>return videos_list\<close> after it.\<close>

function get_videos_loop ::
  "json \<Rightarrow> int \<Rightarrow> string \<Rightarrow> string \<Rightarrow> string \<Rightarrow> bool \<Rightarrow> string \<Rightarrow> video list \<Rightarrow> nat \<Rightarrow> world
     \<Rightarrow> (error + video list) \<times> world" where
  "get_videos_loop playlist_id max_results api_key get_play_list_url get_videos_url
       run page_token videos_list total_counter s =
     (if run then
        (case turn_of playlist_id max_results api_key get_play_list_url get_videos_url
                page_token videos_list total_counter s of
           (Inl e, s') \<Rightarrow> (Inl e, s')
         | (Inr (Returned result), s') \<Rightarrow> (Inr result, s')
         | (Inr (Again run' page_token' videos_list' total_counter'), s') \<Rightarrow>
             get_videos_loop playlist_id max_results api_key get_play_list_url get_videos_url
               run' page_token' videos_list' total_counter' s')
      else (Inr videos_list, s))"
  by pat_completeness auto
termination
  apply (relation "measure (\<lambda>(playlist_id, max_results, api_key, get_play_list_url,
       get_videos_url, run, page_token, videos_list, total_counter, s). length (net s))")
   apply simp
  apply (auto dest: turn_of_shorter)
  done

definition get_videos_list ::
  "json \<Rightarrow> int \<Rightarrow> string \<Rightarrow> string \<Rightarrow> string \<Rightarrow> world \<Rightarrow> (error + video list) \<times> world" where
  "get_videos_list playlist_id max_results api_key get_play_list_url get_videos_url s =
     get_videos_loop playlist_id max_results api_key get_play_list_url get_videos_url
       True [] [] 0 s"

section \<open>The arguments\<close>

text \<open>
  What \<^verbatim>\<open>argparse\<close> hands over. \<^verbatim>\<open>-maxr\<close> has no \<^verbatim>\<open>type\<close>: it is the
  string of the command line, or the default, the number 50. \<^verbatim>\<open>-url\<close> and
  \<^verbatim>\<open>-key\<close> are taken as given.
\<close>

datatype arg = ArgInt int | ArgStr string

record args =
  url :: string
  key :: string
  out :: string
  maxr :: arg

definition default_out_file_path :: string where
  "default_out_file_path = ''ytb_channel_data''"

definition default_max_results :: int where
  "default_max_results = 50"

text \<open>
  \<^verbatim>\<open>int(x)\<close>. On a number it returns the number. On a string it is Python's own
  parser, which is no code of this program and changes with the interpreter (its tables
  of digits and blanks, its limit on the number of digits): it is a parameter
  \<open>int_of\<close> of everything that calls \<^verbatim>\<open>int\<close>, a function that gives the number
  read, or \<open>None\<close> where \<^verbatim>\<open>int\<close> raises \<^verbatim>\<open>ValueError\<close>. Nothing is assumed
  of it.
\<close>

fun py_int :: "(string \<Rightarrow> int option) \<Rightarrow> arg \<Rightarrow> error + int" where
  "py_int int_of (ArgInt n) = Inr n"
| "py_int int_of (ArgStr s) = (case int_of s of None \<Rightarrow> Inl ValueError | Some n \<Rightarrow> Inr n)"

definition correct_args ::
  "(string \<Rightarrow> int option) \<Rightarrow> args \<Rightarrow> world \<Rightarrow> (error + args) \<times> world" where
  "correct_args int_of a s =
     (case py_int int_of (maxr a) of
        Inl e \<Rightarrow> (Inl e, s)
      | Inr n \<Rightarrow>
          if n \<le> 0 \<or> n > default_max_results
          then (Inr (a\<lparr>maxr := ArgInt default_max_results\<rparr>),
                print (''warning: -maxr argument changed to default: ''
                         @ show_int default_max_results) s)
          else (Inr a, s))"

text \<open>\<^verbatim>\<open>get_args\<close>, from the namespace that \<^verbatim>\<open>parse_args\<close> returned.\<close>

definition get_args ::
  "(string \<Rightarrow> int option) \<Rightarrow> args \<Rightarrow> world \<Rightarrow> (error + args) \<times> world" where
  "get_args int_of parsed s =
     correct_args int_of parsed (print ''\<newline>Arguments validation...'' s)"

definition forbidden :: string where
  "forbidden = [CHR 0x5C, CHR ''/'', CHR '':'', CHR ''*'', CHR ''?'', CHR 0x22,
                CHR ''<'', CHR ''>'', CHR ''|'']"

definition os_can_save :: "string \<Rightarrow> bool" where
  "os_can_save file_name = (length (filter (\<lambda>c. is_substring [c] file_name) forbidden) = 0)"

definition validation_url :: "string \<Rightarrow> string" where
  "validation_url api_key =
     ''https://youtube.googleapis.com/youtube/v3/channels?part=contentDetails''
       @ ''&id=UCK8sQmJBp8GCxrOtXWBpyEA&maxResults=50&key='' @ api_key"

definition validate_args :: "args \<Rightarrow> world \<Rightarrow> (error + string) \<times> world" where
  "validate_args a s =
     (case stubborn_request (url a) s of
        (Inl e, s1) \<Rightarrow> (Inl e, s1)
      | (Inr url_resp, s1) \<Rightarrow>
     (case stubborn_request (validation_url (key a)) s1 of
        (Inl e, s2) \<Rightarrow> (Inl e, s2)
      | (Inr api_resp, s2) \<Rightarrow>
          (Inr
            ((if status_code url_resp = 404
              then ''Error: youtube channel '' @ [CHR 0x27] @ url a @ [CHR 0x27]
                     @ '' do not exists!\<newline>''
              else [])
             @ (if status_code api_resp = 400
                then ''Error: api key '' @ [CHR 0x27] @ key a @ [CHR 0x27] @ '' not valid!\<newline>''
                else [])
             @ (if status_code url_resp \<noteq> 404 \<and> status_code url_resp \<noteq> 200
                then ''Error: url response error!\<newline>'' else [])
             @ (if status_code api_resp \<noteq> 400 \<and> status_code api_resp \<noteq> 200
                then ''Error: api response error!\<newline>'' else [])
             @ (if \<not> os_can_save (out a)
                then ''Error: file name can not contain '' @ forbidden @ '' symbols!\<newline>''
                else [])),
           s2)))"

section \<open>The channel lookup, the channel summary and \<^verbatim>\<open>main\<close>\<close>

text \<open>\<^verbatim>\<open>href.split('/')[-1]\<close>: what follows the last \<^verbatim>\<open>/\<close>.\<close>

definition last_segment :: "string \<Rightarrow> string" where
  "last_segment href = rev (takeWhile (\<lambda>c. c \<noteq> CHR ''/'') (rev href))"

text \<open>\<^verbatim>\<open>get_channel_id\<close>: whatever is raised between \<^verbatim>\<open>try\<close> and
  \<^verbatim>\<open>except\<close> ends in \<^verbatim>\<open>sys.exit\<close>; the fetch itself raises nothing.\<close>

definition get_channel_id :: "string \<Rightarrow> world \<Rightarrow> (error + string) \<times> world" where
  "get_channel_id channel_url s =
     (case stubborn_request channel_url s of
        (Inl e, s1) \<Rightarrow> (Inl e, s1)
      | (Inr r, s1) \<Rightarrow>
          (case canonical_href r of
             None \<Rightarrow> (Inl (SystemExit ''error: can not parse html page to find channel id''), s1)
           | Some href \<Rightarrow> (Inr (last_segment href), s1)))"

definition channels_url :: "string \<Rightarrow> int \<Rightarrow> string \<Rightarrow> string" where
  "channels_url channel_id max_results api_key =
     ''https://youtube.googleapis.com/youtube/v3/channels?part=contentDetails&id='' @ channel_id
       @ ''&maxResults='' @ show_int max_results @ ''&key='' @ api_key"

text \<open>\<^verbatim>\<open>api_get_request(url, exit_if_not=True).json()\<close>; \<^verbatim>\<open>False\<close> has no
  \<^verbatim>\<open>json\<close>.\<close>

definition request_json :: "string \<Rightarrow> world \<Rightarrow> (error + json) \<times> world" where
  "request_json request_url s =
     (case api_get_request request_url True s of
        (Inl e, s1) \<Rightarrow> (Inl e, s1)
      | (Inr None, s1) \<Rightarrow> (Inl AttributeError, s1)
      | (Inr (Some r), s1) \<Rightarrow> (json_of r, s1))"

text \<open>\<^verbatim>\<open>j["items"][0]["contentDetails"]["relatedPlaylists"]["uploads"]\<close>.\<close>

definition uploads_of :: "json \<Rightarrow> error + json" where
  "uploads_of j =
     (case getitem j ''items'' of Inl e \<Rightarrow> Inl e | Inr items \<Rightarrow>
     (case getitem0 items of Inl e \<Rightarrow> Inl e | Inr first \<Rightarrow>
     (case getitem first ''contentDetails'' of Inl e \<Rightarrow> Inl e | Inr cd \<Rightarrow>
     (case getitem cd ''relatedPlaylists'' of Inl e \<Rightarrow> Inl e | Inr rp \<Rightarrow>
        getitem rp ''uploads''))))"

definition fetch_channel_playlist_id ::
  "string \<Rightarrow> int \<Rightarrow> string \<Rightarrow> world \<Rightarrow> (error + json) \<times> world" where
  "fetch_channel_playlist_id channel_url max_results api_key s =
     (case get_channel_id channel_url s of
        (Inl e, s1) \<Rightarrow> (Inl e, s1)
      | (Inr channel_id, s1) \<Rightarrow>
          (case request_json (channels_url channel_id max_results api_key) s1 of
             (Inl e, s2) \<Rightarrow> (Inl e, s2)
           | (Inr channel_playlist_id_response_json, s2) \<Rightarrow>
               (uploads_of channel_playlist_id_response_json, s2)))"

text \<open>The part of \<^verbatim>\<open>fetch_channel_data\<close> that reads the response.\<close>

definition summary_of :: "json \<Rightarrow> error + (json \<times> json)" where
  "summary_of response_json =
     (case getitem response_json ''items'' of Inl e \<Rightarrow> Inl e | Inr items \<Rightarrow>
     (case py_len items of Inl e \<Rightarrow> Inl e | Inr n \<Rightarrow>
     (case (if \<not> n = 0
            then (case getitem0 items of Inl e \<Rightarrow> Inl e | Inr first \<Rightarrow>
                 (case getitem first ''snippet'' of Inl e \<Rightarrow> Inl e | Inr sn \<Rightarrow>
                    getitem sn ''channelTitle''))
            else Inr JNull) of
        Inl e \<Rightarrow> Inl e
      | Inr channel_title \<Rightarrow>
     (case getitem response_json ''pageInfo'' of Inl e \<Rightarrow> Inl e | Inr page_info \<Rightarrow>
     (case getitem page_info ''totalResults'' of Inl e \<Rightarrow> Inl e | Inr videos_number \<Rightarrow>
        Inr (channel_title, videos_number))))))"

definition fetch_channel_data ::
  "json \<Rightarrow> int \<Rightarrow> string \<Rightarrow> string \<Rightarrow> world \<Rightarrow> (error + (json \<times> json)) \<times> world" where
  "fetch_channel_data playlist_id max_results api_key get_play_list_url s =
     (case request_json (playlist_url playlist_id max_results api_key get_play_list_url []) s of
        (Inl e, s1) \<Rightarrow> (Inl e, s1)
      | (Inr response_json, s1) \<Rightarrow> (summary_of response_json, s1))"

text \<open>The document \<^verbatim>\<open>json.dump\<close> writes.\<close>

definition video_json :: "video \<Rightarrow> json" where
  "video_json v =
     JObj [(''title'', title v), (''link'', JStr (link v)), (''publish_time'', publish_time v),
           (''views'', views v), (''likes'', likes v), (''comments_number'', comments_number v),
           (''description'', description v)]"

definition channel_data_json :: "json \<Rightarrow> json \<Rightarrow> video list \<Rightarrow> json" where
  "channel_data_json channel_title videos_number videos_list =
     JObj [(''channel_title'', channel_title), (''videos_number'', videos_number),
           (''videos'', JArr (map video_json videos_list))]"

text \<open>\<^verbatim>\<open>open(name, "w")\<close> and \<^verbatim>\<open>json.dump\<close>: the document replaces whatever
  the file of that name held. That the file system takes the name is assumed.\<close>

definition save :: "string \<Rightarrow> json \<Rightarrow> world \<Rightarrow> world" where
  "save file_name document s =
     s\<lparr>files := filter (\<lambda>f. fst f \<noteq> file_name) (files s) @ [(file_name, document)]\<rparr>"

definition get_playlist_url :: string where
  "get_playlist_url = ''https://www.googleapis.com/youtube/v3/playlistItems?''"

definition get_videos_url :: string where
  "get_videos_url = ''https://www.googleapis.com/youtube/v3/videos?''"

text \<open>\<^verbatim>\<open>main\<close> after the validation has found nothing.\<close>

definition fetch_and_save ::
  "(string \<Rightarrow> int option) \<Rightarrow> args \<Rightarrow> world \<Rightarrow> (error + unit) \<times> world" where
  "fetch_and_save int_of a s =
     (case py_int int_of (maxr a) of Inl e \<Rightarrow> (Inl e, s) | Inr max_results \<Rightarrow>
     (case fetch_channel_playlist_id (url a) max_results (key a)
             (print ''\<newline>Fetching channel id & playlist id...'' s) of
        (Inl e, s1) \<Rightarrow> (Inl e, s1)
      | (Inr playlist_id, s1) \<Rightarrow>
     (case fetch_channel_data playlist_id max_results (key a) get_playlist_url
             (print ''Fetching channel data...'' s1) of
        (Inl e, s2) \<Rightarrow> (Inl e, s2)
      | (Inr (channel_title, videos_number), s2) \<Rightarrow>
     (case get_videos_list playlist_id max_results (key a) get_playlist_url get_videos_url s2 of
        (Inl e, s3) \<Rightarrow> (Inl e, s3)
      | (Inr videos_list, s3) \<Rightarrow>
          (Inr (),
           save (out a @ ''.json'') (channel_data_json channel_title videos_number videos_list)
             (print ''\<newline>Saving json file...'' s3))))))"

text \<open>\<^verbatim>\<open>main\<close>, from the namespace that \<^verbatim>\<open>parse_args\<close> returned.\<close>

definition main ::
  "(string \<Rightarrow> int option) \<Rightarrow> args \<Rightarrow> world \<Rightarrow> (error + unit) \<times> world" where
  "main int_of parsed s =
     (case get_args int_of parsed s of
        (Inl e, s1) \<Rightarrow> (Inl e, s1)
      | (Inr a, s1) \<Rightarrow>
     (case validate_args a s1 of
        (Inl e, s2) \<Rightarrow> (Inl e, s2)
      | (Inr validation_error, s2) \<Rightarrow>
          if validation_error \<noteq> []
          then (Inr (), print validation_error s2)
          else fetch_and_save int_of a s2))"

text \<open>The exit status of the process: 0 when \<^verbatim>\<open>main\<close> returns, 1 when an exception
  ends it (\<^verbatim>\<open>sys.exit\<close> with a string too); none while it waits for the network.\<close>

fun exit_status :: "error + unit \<Rightarrow> nat option" where
  "exit_status (Inr _) = Some 0"
| "exit_status (Inl NoResponse) = None"
| "exit_status (Inl _) = Some 1"

section \<open>The pages of a run, as the specification describes them\<close>

text \<open>
  The definitions of this section are not translations of the source: they say, in the
  words of the specification (4.5 and 6), what a page of the remote API looks like and
  which records it stands for. The theorems below compare \<^verbatim>\<open>get_videos_list\<close>
  with them.

  \<open>member d k\<close> is the value under the key \<open>k\<close>, absent (null) when \<open>d\<close> has no such
  key or is no object.
\<close>

definition member :: "json \<Rightarrow> string \<Rightarrow> json" where
  "member d k = (case getitem d k of Inl e \<Rightarrow> JNull | Inr v \<Rightarrow> v)"

fun is_object :: "json \<Rightarrow> bool" where
  "is_object (JObj kvs) = True"
| "is_object _ = False"

fun is_string :: "json \<Rightarrow> bool" where
  "is_string (JStr s) = True"
| "is_string _ = False"

fun is_array :: "json \<Rightarrow> bool" where
  "is_array (JArr xs) = True"
| "is_array _ = False"

fun elements :: "json \<Rightarrow> json list" where
  "elements (JArr xs) = xs"
| "elements _ = []"

text \<open>An item is a playlist entry when its kind marks it as one. A listing item of the
  API's shape has a kind and, when it is an entry, a snippet object and a contentDetails
  object with a \<^verbatim>\<open>videoId\<close> string; its \<^verbatim>\<open>publishedAt\<close> is missing or a
  string. Title and description are free. \<open>parses_entry\<close> and \<open>parses_item\<close> ask
  the same but for the \<^verbatim>\<open>videoId\<close>.\<close>

definition is_entry :: "json \<Rightarrow> bool" where
  "is_entry item = (getitem item ''kind'' = Inr (JStr ''youtube#playlistItem''))"

definition parses_entry :: "json \<Rightarrow> bool" where
  "parses_entry item =
     (is_object (member item ''snippet'') \<and> is_object (member item ''contentDetails'')
      \<and> (contains ''publishedAt'' (member item ''snippet'') = Inr False
           \<or> is_string (member (member item ''snippet'') ''publishedAt'')))"

definition wf_entry :: "json \<Rightarrow> bool" where
  "wf_entry item =
     (parses_entry item \<and> is_string (member (member item ''contentDetails'') ''videoId''))"

definition parses_item :: "json \<Rightarrow> bool" where
  "parses_item item =
     (case getitem item ''kind'' of
        Inl e \<Rightarrow> False
      | Inr k \<Rightarrow> k \<noteq> JStr ''youtube#playlistItem'' \<or> parses_entry item)"

definition wf_item :: "json \<Rightarrow> bool" where
  "wf_item item =
     (case getitem item ''kind'' of
        Inl e \<Rightarrow> False
      | Inr k \<Rightarrow> k \<noteq> JStr ''youtube#playlistItem'' \<or> wf_entry item)"

text \<open>An item of the statistics response carries a statistics object.\<close>

definition wf_stat :: "json \<Rightarrow> bool" where
  "wf_stat v = is_object (member v ''statistics'')"

text \<open>The publish timestamp with the date/time separator replaced and the zone marker
  dropped; absent when the item has none.\<close>

fun normalized :: "json \<Rightarrow> json" where
  "normalized (JStr v) = JStr (replace (CHR ''Z'') [] (replace (CHR ''T'') '' '' v))"
| "normalized v = JNull"

text \<open>The record of a playlist entry and the statistics zipped with it (4.5, steps 2
  and 4): every missing field is absent.\<close>

definition record_of :: "json \<Rightarrow> json \<Rightarrow> video" where
  "record_of item v =
     \<lparr>title = member (member item ''snippet'') ''title'',
      link = youtube_link @ format (member (member item ''contentDetails'') ''videoId''),
      publish_time = normalized (member (member item ''snippet'') ''publishedAt''),
      views = member (member v ''statistics'') ''viewCount'',
      likes = member (member v ''statistics'') ''likeCount'',
      comments_number = member (member v ''statistics'') ''commentCount'',
      description = member (member item ''snippet'') ''description''\<rparr>"

text \<open>What the source's tuple of fields and its four buffers hold for given entries.\<close>

definition fields_of :: "json \<Rightarrow> json \<times> json \<times> json \<times> json" where
  "fields_of item =
     (member (member item ''snippet'') ''title'',
      member (member item ''snippet'') ''description'',
      member (member item ''contentDetails'') ''videoId'',
      normalized (member (member item ''snippet'') ''publishedAt''))"

definition buffers_of :: "json list \<Rightarrow> buffers" where
  "buffers_of es =
     \<lparr>title_buffer = map (\<lambda>item. member (member item ''snippet'') ''title'') es,
      description_buffer = map (\<lambda>item. member (member item ''snippet'') ''description'') es,
      video_id_buffer = map (\<lambda>item. member (member item ''contentDetails'') ''videoId'') es,
      publish_time_buffer =
        map (\<lambda>item. normalized (member (member item ''snippet'') ''publishedAt'')) es\<rparr>"

text \<open>A page of a run: the responses to its playlist-items request and to its
  statistics request, each after the failed attempts the transport retries.\<close>

record page =
  before_items :: "net_error list"
  items_response :: response
  before_statistics :: "net_error list"
  statistics_response :: response

definition script_of :: "page \<Rightarrow> attempt list" where
  "script_of p =
     map Raises (before_items p) @ [Responds (items_response p)]
       @ map Raises (before_statistics p) @ [Responds (statistics_response p)]"

text \<open>The document of a response, its items, its playlist entries and its
  continuation cursor.\<close>

definition document :: "response \<Rightarrow> json" where
  "document r = (case body r of None \<Rightarrow> JNull | Some j \<Rightarrow> j)"

definition items_of :: "response \<Rightarrow> json list" where
  "items_of r = elements (member (document r) ''items'')"

definition entries_of :: "response \<Rightarrow> json list" where
  "entries_of r = filter is_entry (items_of r)"

definition has_cursor :: "response \<Rightarrow> bool" where
  "has_cursor r = (contains ''nextPageToken'' (document r) = Inr True)"

text \<open>A listing and a statistics response of the API's shape, both with status 200. The
  cursor of a listing, when it has one, is a string.\<close>

definition wf_listing :: "response \<Rightarrow> bool" where
  "wf_listing r =
     (status_code r = 200 \<and> is_array (member (document r) ''items'')
      \<and> list_all wf_item (items_of r)
      \<and> (has_cursor r \<longrightarrow> is_string (member (document r) ''nextPageToken'')))"

definition wf_statistics :: "response \<Rightarrow> bool" where
  "wf_statistics r =
     (status_code r = 200 \<and> is_array (member (document r) ''items'')
      \<and> list_all wf_stat (items_of r))"

definition wf_page :: "page \<Rightarrow> bool" where
  "wf_page p = (wf_listing (items_response p) \<and> wf_statistics (statistics_response p))"

text \<open>\<open>fits\<close>: the statistics response has no more items than the page has entries.
  \<open>more_pages\<close>: the page carries a continuation cursor.\<close>

definition fits :: "page \<Rightarrow> bool" where
  "fits p = (length (items_of (statistics_response p)) \<le> length (entries_of (items_response p)))"

definition more_pages :: "page \<Rightarrow> bool" where
  "more_pages p = has_cursor (items_response p)"

text \<open>The records of a page (4.5, steps 4 and 5): the entries in their order, each
  zipped with the statistics at its index.\<close>

definition records_of :: "page \<Rightarrow> video list" where
  "records_of p =
     map2 record_of (entries_of (items_response p)) (items_of (statistics_response p))"

text \<open>The comma-joined ids of a page's entries, the page token after a page, and the
  urls the engine is to request for a sequence of pages: for each page the listing, then
  the statistics.\<close>

definition ids_of :: "response \<Rightarrow> string" where
  "ids_of r =
     join_strs '','' (map (\<lambda>item. format (member (member item ''contentDetails'') ''videoId''))
       (entries_of r))"

definition token_after :: "response \<Rightarrow> string \<Rightarrow> string" where
  "token_after r page_token =
     (if has_cursor r then ''&pageToken='' @ format (member (document r) ''nextPageToken'')
      else page_token)"

fun requests_of ::
  "json \<Rightarrow> int \<Rightarrow> string \<Rightarrow> string \<Rightarrow> string \<Rightarrow> string \<Rightarrow> page list \<Rightarrow> string list" where
  "requests_of pid mr k lurl vurl tok [] = []"
| "requests_of pid mr k lurl vurl tok (p # ps) =
     playlist_url pid mr k lurl tok
       # statistics_url mr k vurl (ids_of (items_response p))
       # requests_of pid mr k lurl vurl (token_after (items_response p) tok) ps"

definition token_through :: "string \<Rightarrow> page list \<Rightarrow> string" where
  "token_through tok ps = foldl (\<lambda>t p. token_after (items_response p) t) tok ps"

definition entries_in :: "page list \<Rightarrow> nat" where
  "entries_in ps = length (concat (map (\<lambda>p. entries_of (items_response p)) ps))"

section \<open>The engine on pages of the API's shape\<close>

declare get_videos_loop.simps [simp del]

lemma is_object_member:
  "is_object (member d k) \<Longrightarrow> \<exists>kvs. getitem d k = Inr (JObj kvs) \<and> member d k = JObj kvs"
  by (cases "getitem d k"; cases "member d k") (auto simp: member_def)

lemma field_object:
  "getitem item a = Inr (JObj kvs) \<Longrightarrow> field item a k = Inr (member (JObj kvs) k)"
  by (cases "map_of kvs k")
    (auto simp: field_def member_def map_of_eq_None_iff [symmetric] simp del: map_of_eq_None_iff)

lemma publish_time_object:
  assumes "getitem item ''snippet'' = Inr (JObj kvs)"
    and "contains ''publishedAt'' (JObj kvs) = Inr False \<or> is_string (member (JObj kvs) ''publishedAt'')"
  shows "publish_time_of item = Inr (normalized (member (JObj kvs) ''publishedAt''))"
proof (cases "map_of kvs ''publishedAt''")
  case None
  then show ?thesis using assms(1)
    by (auto simp: publish_time_of_def member_def map_of_eq_None_iff [symmetric]
        simp del: map_of_eq_None_iff)
next
  case (Some v)
  then have "''publishedAt'' \<in> fst ` set kvs"
    by (metis map_of_eq_None_iff option.distinct(1))
  with Some assms show ?thesis
    by (cases v) (auto simp: publish_time_of_def member_def)
qed

lemma item_fields_wf: "parses_entry item \<Longrightarrow> item_fields item = Inr (fields_of item)"
  unfolding parses_entry_def
  by (auto dest!: is_object_member simp: item_fields_def fields_of_def field_object publish_time_object)

lemma append_fields_buffers_of:
  "append_fields (buffers_of es) (fields_of item) = buffers_of (es @ [item])"
  by (simp add: append_fields_def buffers_of_def fields_of_def)

lemma wf_parses: "list_all wf_item its \<Longrightarrow> list_all parses_item its"
  by (induction its) (auto simp: wf_item_def parses_item_def wf_entry_def split: sum.splits)

lemma parse_items_wf:
  "list_all parses_item its \<Longrightarrow>
     parse_items its (buffers_of es) tc
       = Inr (buffers_of (es @ filter is_entry its), tc + length (filter is_entry its))"
proof (induction its arbitrary: es tc)
  case Nil
  then show ?case by simp
next
  case (Cons item its)
  show ?case
  proof (cases "is_entry item")
    case True
    with Cons.prems have "parses_entry item"
      by (auto simp: parses_item_def is_entry_def)
    with True Cons show ?thesis
      by (simp add: is_entry_def item_fields_wf append_fields_buffers_of)
  next
    case False
    with Cons show ?thesis
      by (auto simp: parses_item_def is_entry_def split: sum.splits)
  qed
qed

lemma no_buffers_of: "no_buffers = buffers_of []"
  by (simp add: no_buffers_def buffers_of_def)

lemma make_video_wf:
  assumes "wf_stat v"
  shows "make_video (buffers_of es) i v
           = (if i < length es then Inr (record_of (es ! i) v) else Inl IndexError)"
proof -
  from assms obtain kvs where "getitem v ''statistics'' = Inr (JObj kvs)"
    "member v ''statistics'' = JObj kvs"
    unfolding wf_stat_def by (auto dest: is_object_member)
  then show ?thesis
    by (simp add: make_video_def field_object index_def buffers_of_def record_of_def)
qed

lemma statistics_loop_wf:
  "list_all wf_stat vs \<Longrightarrow>
     statistics_loop vs i (buffers_of es) acc
       = (if vs = [] \<or> i + length vs \<le> length es
          then Inr (acc @ map2 record_of (drop i es) vs)
          else Inl IndexError)"
proof (induction vs arbitrary: i acc)
  case Nil
  then show ?case by simp
next
  case (Cons v vs)
  show ?case
  proof (cases "i < length es")
    case True
    then have "drop i es = es ! i # drop (Suc i) es"
      by (simp add: Cons_nth_drop_Suc)
    with True Cons show ?thesis
      by (auto simp: make_video_wf)
  next
    case False
    with Cons show ?thesis
      by (simp add: make_video_wf)
  qed
qed

lemma attempts_script:
  "attempts (map Raises es @ Responds r # rest) ms = (Inr r, rest, ms @ map retry_message es)"
  by (induction es arbitrary: ms) auto

lemma stubborn_request_script:
  "net s = map Raises es @ Responds r # rest \<Longrightarrow>
     stubborn_request u s
       = (Inr r, s\<lparr>net := rest, fetched := fetched s @ [u],
                   stdout := stdout s @ map retry_message es\<rparr>)"
  by (simp add: stubborn_request_def attempts_script)

lemma api_get_request_ok:
  "api_request_allow s \<Longrightarrow> net s = map Raises es @ Responds r # rest \<Longrightarrow> status_code r = 200 \<Longrightarrow>
     api_get_request u b s
       = (Inr (Some r), s\<lparr>net := rest, fetched := fetched s @ [u],
                          stdout := stdout s @ map retry_message es\<rparr>)"
  by (simp add: api_get_request_def stubborn_request_script)

lemma api_get_request_refused:
  "api_request_allow s \<Longrightarrow> net s = map Raises es @ Responds r # rest \<Longrightarrow> status_code r \<noteq> 200 \<Longrightarrow>
     api_get_request u False s
       = (Inr None, s\<lparr>api_request_allow := False, net := rest, fetched := fetched s @ [u],
                      stdout := stdout s @ map retry_message es @ [''\<newline>Api response error!\<newline>'']\<rparr>)"
  by (simp add: api_get_request_def stubborn_request_script gate_closed_def print_def)

lemma is_array_member:
  "is_array (member d k) \<Longrightarrow> getitem d k = Inr (JArr (elements (member d k)))"
  by (cases "getitem d k"; cases "member d k") (auto simp: member_def)

lemma is_array_document:
  "is_array (member (document r) k) \<Longrightarrow> json_of r = Inr (document r)"
  by (cases "body r") (auto simp: json_of_def document_def member_def)

lemma join_ids:
  "list_all wf_entry es \<Longrightarrow>
     join sep (video_id_buffer (buffers_of es))
       = Inr (join_strs sep (map (\<lambda>item. format (member (member item ''contentDetails'') ''videoId'')) es))"
proof -
  have "list_all wf_entry es \<Longrightarrow>
     the_strs (map (\<lambda>item. member (member item ''contentDetails'') ''videoId'') es)
       = Inr (map (\<lambda>item. format (member (member item ''contentDetails'') ''videoId'')) es)"
  proof (induction es)
    case Nil
    then show ?case by simp
  next
    case (Cons item es)
    then have "is_string (member (member item ''contentDetails'') ''videoId'')"
      by (simp add: wf_entry_def)
    then obtain v where "member (member item ''contentDetails'') ''videoId'' = JStr v"
      by (cases "member (member item ''contentDetails'') ''videoId''") auto
    with Cons show ?case by simp
  qed
  then show "list_all wf_entry es \<Longrightarrow> ?thesis"
    by (simp add: join_def buffers_of_def)
qed

lemma wf_entries: "list_all wf_item its \<Longrightarrow> list_all wf_entry (filter is_entry its)"
  by (induction its) (auto simp: wf_item_def is_entry_def)

lemma is_string_member: "is_string (member d k) \<Longrightarrow> getitem d k = Inr (member d k)"
  by (cases "getitem d k") (auto simp: member_def)

lemma contains_object: "is_array (member d k') \<Longrightarrow> contains k d = Inr (contains k d = Inr True)"
  by (cases d) (auto simp: member_def)

lemma next_page_token_string: "is_string t \<Longrightarrow> next_page_token t = Inr (''&pageToken='' @ format t)"
  by (cases t) auto

lemma append_page_wf:
  assumes "wf_statistics sr" and "wf_listing lr"
  shows "append_page (document lr) (buffers_of es) tc tok vl sr s
           = (if length (items_of sr) \<le> length es
              then (Inr (Again (has_cursor lr) (token_after lr tok)
                          (vl @ map2 record_of es (items_of sr)) tc),
                    print (''Parsed '' @ show_nat tc @ '' videos'') s)
              else (Inl IndexError, s))"
proof -
  from assms(1) have sr: "json_of sr = Inr (document sr)"
    "getitem (document sr) ''items'' = Inr (JArr (items_of sr))" "list_all wf_stat (items_of sr)"
    by (auto simp: wf_statistics_def items_of_def is_array_document dest: is_array_member)
  from assms(2) have c: "contains ''nextPageToken'' (document lr) = Inr (has_cursor lr)"
    unfolding wf_listing_def has_cursor_def by (auto dest: contains_object)
  have t: "getitem (document lr) ''nextPageToken'' = Inr (member (document lr) ''nextPageToken'')"
    "next_page_token (member (document lr) ''nextPageToken'')
       = Inr (''&pageToken='' @ format (member (document lr) ''nextPageToken''))"
    if "has_cursor lr"
    using that assms(2) by (auto simp: wf_listing_def is_string_member next_page_token_string)
  show ?thesis
    using sr(3)
    by (simp add: append_page_def sr(1,2) statistics_loop_wf [where i = 0, simplified] c t
        token_after_def Let_def)
qed

lemma turn_of_page:
  assumes "wf_listing (items_response p)" and "wf_statistics (statistics_response p)"
    and "api_request_allow s" and "net s = script_of p @ rest"
  shows "turn_of pid mr k lurl vurl tok vl tc s
           = (if length (items_of (statistics_response p)) \<le> length (entries_of (items_response p))
              then (Inr (Again (has_cursor (items_response p)) (token_after (items_response p) tok)
                          (vl @ map2 record_of (entries_of (items_response p))
                                  (items_of (statistics_response p)))
                          (tc + length (entries_of (items_response p)))),
                    s\<lparr>net := rest,
                      fetched := fetched s @ [playlist_url pid mr k lurl tok,
                                   statistics_url mr k vurl (ids_of (items_response p))],
                      stdout := stdout s @ map retry_message (before_items p)
                                  @ map retry_message (before_statistics p)
                                  @ [''Parsed '' @ show_nat (tc + length (entries_of (items_response p)))
                                       @ '' videos'']\<rparr>)
              else (Inl IndexError,
                    s\<lparr>net := rest,
                      fetched := fetched s @ [playlist_url pid mr k lurl tok,
                                   statistics_url mr k vurl (ids_of (items_response p))],
                      stdout := stdout s @ map retry_message (before_items p)
                                  @ map retry_message (before_statistics p)\<rparr>))"
proof -
  let ?lr = "items_response p" and ?sr = "statistics_response p"
  let ?s1 = "s\<lparr>net := map Raises (before_statistics p) @ Responds ?sr # rest,
               fetched := fetched s @ [playlist_url pid mr k lurl tok],
               stdout := stdout s @ map retry_message (before_items p)\<rparr>"
  from assms(1) have lr: "status_code ?lr = 200" "json_of ?lr = Inr (document ?lr)"
    "getitem (document ?lr) ''items'' = Inr (JArr (items_of ?lr))" "list_all wf_item (items_of ?lr)"
    by (auto simp: wf_listing_def items_of_def is_array_document dest: is_array_member)
  from assms(2) have sr: "status_code ?sr = 200"
    by (simp add: wf_statistics_def)
  have r1: "api_get_request (playlist_url pid mr k lurl tok) False s = (Inr (Some ?lr), ?s1)"
    using assms(3,4) lr(1)
    by (simp add: api_get_request_ok [where es = "before_items p" and r = ?lr
          and rest = "map Raises (before_statistics p) @ Responds ?sr # rest"] script_of_def)
  have r2: "api_get_request u False ?s1
              = (Inr (Some ?sr), ?s1\<lparr>net := rest, fetched := fetched ?s1 @ [u],
                     stdout := stdout ?s1 @ map retry_message (before_statistics p)\<rparr>)" for u
    using assms(3) sr
    by (intro api_get_request_ok) simp_all
  have parse: "parse_items (items_of ?lr) no_buffers tc
                 = Inr (buffers_of (entries_of ?lr), tc + length (entries_of ?lr))"
    using parse_items_wf [OF wf_parses [OF lr(4)], of "[]" tc] by (simp add: no_buffers_of entries_of_def)
  have ids: "join '','' (video_id_buffer (buffers_of (entries_of ?lr))) = Inr (ids_of ?lr)"
    using lr(4) by (simp add: join_ids wf_entries entries_of_def ids_of_def)
  show ?thesis
    unfolding turn_of_def
    by (simp add: r1 lr(2,3) parse ids r2 append_page_wf [OF assms(2,1)] print_def)
qed

lemma requests_of_append:
  "requests_of pid mr k lurl vurl tok (ps @ [q])
     = requests_of pid mr k lurl vurl tok ps
         @ [playlist_url pid mr k lurl (token_through tok ps),
            statistics_url mr k vurl (ids_of (items_response q))]"
  by (induction ps arbitrary: tok) (simp_all add: token_through_def)

lemma length_requests_of: "length (requests_of pid mr k lurl vurl tok ps) = 2 * length ps"
  by (induction ps arbitrary: tok) simp_all

lemma loop_prefix:
  assumes "list_all wf_page ps" and "list_all fits ps" and "list_all more_pages ps"
    and "api_request_allow s" and "net s = concat (map script_of ps) @ rest"
  shows "\<exists>s'. get_videos_loop pid mr k lurl vurl True tok vl tc s
                = get_videos_loop pid mr k lurl vurl True (token_through tok ps)
                    (vl @ concat (map records_of ps)) (tc + entries_in ps) s'
            \<and> api_request_allow s' \<and> net s' = rest
            \<and> fetched s' = fetched s @ requests_of pid mr k lurl vurl tok ps"
  using assms
proof (induction ps arbitrary: s tok vl tc)
  case Nil
  then show ?case
    by (intro exI [of _ s]) (simp add: token_through_def entries_in_def)
next
  case (Cons p ps)
  then have n: "net s = script_of p @ (concat (map script_of ps) @ rest)" by simp
  from Cons.prems have p: "wf_listing (items_response p)" "wf_statistics (statistics_response p)"
    "fits p" "more_pages p"
    by (simp_all add: wf_page_def)
  let ?s1 = "s\<lparr>net := concat (map script_of ps) @ rest,
                fetched := fetched s @ [playlist_url pid mr k lurl tok,
                             statistics_url mr k vurl (ids_of (items_response p))],
                stdout := stdout s @ map retry_message (before_items p)
                            @ map retry_message (before_statistics p)
                            @ [''Parsed '' @ show_nat (tc + length (entries_of (items_response p)))
                                 @ '' videos'']\<rparr>"
  have step: "get_videos_loop pid mr k lurl vurl True tok vl tc s
                = get_videos_loop pid mr k lurl vurl True (token_after (items_response p) tok)
                    (vl @ records_of p) (tc + length (entries_of (items_response p))) ?s1"
    using turn_of_page [OF p(1,2) Cons.prems(4) n, of pid mr k lurl vurl tok vl tc] p(3,4)
    by (subst get_videos_loop.simps) (simp add: fits_def more_pages_def records_of_def)
  have "api_request_allow ?s1" "net ?s1 = concat (map script_of ps) @ rest"
    using Cons.prems(4) by simp_all
  from Cons.IH [OF _ _ _ this, of "token_after (items_response p) tok" "vl @ records_of p"
      "tc + length (entries_of (items_response p))"] Cons.prems(1,2,3)
  obtain s' where s': "get_videos_loop pid mr k lurl vurl True (token_after (items_response p) tok)
        (vl @ records_of p) (tc + length (entries_of (items_response p))) ?s1
      = get_videos_loop pid mr k lurl vurl True
          (token_through (token_after (items_response p) tok) ps)
          ((vl @ records_of p) @ concat (map records_of ps))
          (tc + length (entries_of (items_response p)) + entries_in ps) s'"
    "api_request_allow s'" "net s' = rest"
    "fetched s' = fetched ?s1
        @ requests_of pid mr k lurl vurl (token_after (items_response p) tok) ps"
    by auto
  have "get_videos_loop pid mr k lurl vurl True tok vl tc s
          = get_videos_loop pid mr k lurl vurl True (token_through tok (p # ps))
              (vl @ concat (map records_of (p # ps))) (tc + entries_in (p # ps)) s'"
    unfolding step s'(1) by (simp add: token_through_def entries_in_def add.assoc)
  moreover have "fetched s' = fetched s @ requests_of pid mr k lurl vurl tok (p # ps)"
    using s'(4) by simp
  ultimately show ?case
    using s'(2,3) by blast
qed

text \<open>The last turn, on a page without a cursor.\<close>

lemma loop_last:
  assumes "wf_page q" and "\<not> more_pages q"
    and "api_request_allow s" and "net s = script_of q @ rest"
  shows "fst (get_videos_loop pid mr k lurl vurl True tok vl tc s)
           = (if fits q then Inr (vl @ records_of q) else Inl IndexError)"
    and "net (snd (get_videos_loop pid mr k lurl vurl True tok vl tc s)) = rest"
    and "fetched (snd (get_videos_loop pid mr k lurl vurl True tok vl tc s))
           = fetched s @ [playlist_url pid mr k lurl tok,
                statistics_url mr k vurl (ids_of (items_response q))]"
    and "api_request_allow (snd (get_videos_loop pid mr k lurl vurl True tok vl tc s))"
  using turn_of_page [OF _ _ assms(3,4), of pid mr k lurl vurl tok vl tc] assms(1,2,3)
  by (simp_all add: get_videos_loop.simps [of _ _ _ _ _ True]
      get_videos_loop.simps [of _ _ _ _ _ False] wf_page_def fits_def more_pages_def records_of_def)

lemma turn_of_refused:
  assumes "wf_listing lr" and "status_code bad \<noteq> 200" and "api_request_allow s"
    and "net s = map Raises e1 @ Responds lr # map Raises e2 @ Responds bad # rest"
  shows "turn_of pid mr k lurl vurl tok vl tc s
           = (Inr (Returned vl),
              s\<lparr>api_request_allow := False, net := rest,
                fetched := fetched s @ [playlist_url pid mr k lurl tok,
                             statistics_url mr k vurl (ids_of lr)],
                stdout := stdout s @ map retry_message e1 @ map retry_message e2
                            @ [''\<newline>Api response error!\<newline>'']\<rparr>)"
proof -
  let ?s1 = "s\<lparr>net := map Raises e2 @ Responds bad # rest,
               fetched := fetched s @ [playlist_url pid mr k lurl tok],
               stdout := stdout s @ map retry_message e1\<rparr>"
  from assms(1) have lr: "status_code lr = 200" "json_of lr = Inr (document lr)"
    "getitem (document lr) ''items'' = Inr (JArr (items_of lr))" "list_all wf_item (items_of lr)"
    by (auto simp: wf_listing_def items_of_def is_array_document dest: is_array_member)
  have r1: "api_get_request (playlist_url pid mr k lurl tok) False s = (Inr (Some lr), ?s1)"
    using assms(3,4) lr(1) by (simp add: api_get_request_ok)
  have r2: "api_get_request u False ?s1
              = (Inr None, ?s1\<lparr>api_request_allow := False, net := rest,
                     fetched := fetched ?s1 @ [u],
                     stdout := stdout ?s1 @ map retry_message e2
                                 @ [''\<newline>Api response error!\<newline>'']\<rparr>)" for u
    using assms(2,3) by (intro api_get_request_refused) simp_all
  have parse: "parse_items (items_of lr) no_buffers tc
                 = Inr (buffers_of (entries_of lr), tc + length (entries_of lr))"
    using parse_items_wf [OF wf_parses [OF lr(4)], of "[]" tc] by (simp add: no_buffers_of entries_of_def)
  have ids: "join '','' (video_id_buffer (buffers_of (entries_of lr))) = Inr (ids_of lr)"
    using lr(4) by (simp add: join_ids wf_entries entries_of_def ids_of_def)
  show ?thesis
    unfolding turn_of_def by (simp add: r1 lr(2,3) parse ids r2)
qed

lemma loop_overflow:
  assumes "wf_page q" and "\<not> fits q" and "api_request_allow s" and "net s = script_of q @ rest"
  shows "fst (get_videos_loop pid mr k lurl vurl True tok vl tc s) = Inl IndexError"
  using turn_of_page [OF _ _ assms(3,4), of pid mr k lurl vurl tok vl tc] assms(1,2)
  by (simp add: get_videos_loop.simps [of _ _ _ _ _ True] wf_page_def fits_def)

lemma loop_refused:
  assumes "wf_listing lr" and "status_code bad \<noteq> 200" and "api_request_allow s"
    and "net s = map Raises e1 @ Responds lr # map Raises e2 @ Responds bad # rest"
  shows "fst (get_videos_loop pid mr k lurl vurl True tok vl tc s) = Inr vl"
    and "\<not> api_request_allow (snd (get_videos_loop pid mr k lurl vurl True tok vl tc s))"
    and "net (snd (get_videos_loop pid mr k lurl vurl True tok vl tc s)) = rest"
  using turn_of_refused [OF assms, of pid mr k lurl vurl tok vl tc]
  by (simp_all add: get_videos_loop.simps [of _ _ _ _ _ True])

lemma zip_take_left: "zip (take (length ys) xs) ys = zip xs ys"
  by (induction xs ys rule: list_induct2') simp_all

lemma replace_absent: "c \<notin> set s \<Longrightarrow> replace c n s = s"
  by (induction s) (auto simp: replace_def)

lemma replace_append: "replace c n (xs @ ys) = replace c n xs @ replace c n ys"
  by (simp add: replace_def)

lemma replace_Cons: "replace c n (x # xs) = (if x = c then n else [x]) @ replace c n xs"
  by (simp add: replace_def)

lemma replace_Nil: "replace c n [] = []"
  by (simp add: replace_def)

lemma strip_TZ_timestamp:
  assumes "CHR ''T'' \<notin> set d \<union> set t" and "CHR ''Z'' \<notin> set d \<union> set t"
  shows "strip_TZ (JStr (d @ ''T'' @ t @ ''Z'')) = Inr (JStr (d @ '' '' @ t))"
proof -
  have "replace (CHR ''T'') '' '' (d @ ''T'' @ t @ ''Z'') = d @ '' '' @ t @ ''Z''"
    using assms(1) by (simp add: replace_append replace_absent replace_Cons replace_Nil)
  moreover have "replace (CHR ''Z'') [] (d @ '' '' @ t @ ''Z'') = d @ '' '' @ t"
    using assms(2) by (simp add: replace_append replace_absent replace_Cons replace_Nil)
  ultimately show ?thesis by simp
qed

lemma the_strs_not_strings: "\<not> list_all is_string xs \<Longrightarrow> the_strs xs = Inl TypeError"
proof (induction xs)
  case Nil
  then show ?case by simp
next
  case (Cons x xs)
  then show ?case by (cases x) (auto split: sum.splits)
qed

lemma join_not_strings: "\<not> list_all is_string xs \<Longrightarrow> join sep xs = Inl TypeError"
  by (simp add: join_def the_strs_not_strings)

lemma missing_member:
  "is_object d \<Longrightarrow> contains k d = Inr False \<Longrightarrow> member d k = JNull"
  by (cases d) (auto simp: member_def map_of_eq_None_iff [symmetric] simp del: map_of_eq_None_iff
      split: option.splits)

lemma turn_of_missing_id:
  assumes "status_code lr = 200" and "is_array (member (document lr) ''items'')"
    and "list_all parses_item (items_of lr)"
    and "e \<in> set (entries_of lr)" and "contains ''videoId'' (member e ''contentDetails'') = Inr False"
    and "api_request_allow s" and "net s = map Raises es @ Responds lr # rest"
  shows "turn_of pid mr k lurl vurl tok vl tc s
           = (Inl TypeError,
              s\<lparr>net := rest, fetched := fetched s @ [playlist_url pid mr k lurl tok],
                stdout := stdout s @ map retry_message es\<rparr>)"
proof -
  have lr: "json_of lr = Inr (document lr)"
    "getitem (document lr) ''items'' = Inr (JArr (items_of lr))"
    using assms(2) by (auto simp: items_of_def is_array_document dest: is_array_member)
  have r1: "api_get_request (playlist_url pid mr k lurl tok) False s
              = (Inr (Some lr), s\<lparr>net := rest, fetched := fetched s @ [playlist_url pid mr k lurl tok],
                     stdout := stdout s @ map retry_message es\<rparr>)"
    using assms(1,6,7) by (simp add: api_get_request_ok)
  have parse: "parse_items (items_of lr) no_buffers tc
                 = Inr (buffers_of (entries_of lr), tc + length (entries_of lr))"
    using parse_items_wf [OF assms(3), of "[]" tc] by (simp add: no_buffers_of entries_of_def)
  from assms(3,4) have "parses_entry e"
    by (auto simp: entries_of_def list_all_iff parses_item_def is_entry_def)
  with assms(5) have "member (member e ''contentDetails'') ''videoId'' = JNull"
    by (simp add: parses_entry_def missing_member)
  with assms(4) have "\<not> list_all is_string (video_id_buffer (buffers_of (entries_of lr)))"
    by (auto simp: buffers_of_def list_all_iff intro!: bexI [of _ e])
  then have "join '','' (video_id_buffer (buffers_of (entries_of lr))) = Inl TypeError"
    by (rule join_not_strings)
  then show ?thesis
    unfolding turn_of_def by (simp add: r1 lr parse)
qed

lemma request_json_ok:
  "api_request_allow s \<Longrightarrow> net s = map Raises es @ Responds r # rest \<Longrightarrow> status_code r = 200
     \<Longrightarrow> body r = Some j \<Longrightarrow>
     request_json u s
       = (Inr j, s\<lparr>net := rest, fetched := fetched s @ [u],
                   stdout := stdout s @ map retry_message es\<rparr>)"
  by (simp add: request_json_def api_get_request_ok json_of_def)

lemma get_channel_id_ok:
  "net s = map Raises es @ Responds r # rest \<Longrightarrow> canonical_href r = Some href \<Longrightarrow>
     get_channel_id u s
       = (Inr (last_segment href),
          s\<lparr>net := rest, fetched := fetched s @ [u], stdout := stdout s @ map retry_message es\<rparr>)"
  by (simp add: get_channel_id_def stubborn_request_script)

lemma fetch_channel_playlist_id_ok:
  assumes "api_request_allow s"
    and "net s = map Raises e1 @ Responds page # map Raises e2 @ Responds r # rest"
    and "canonical_href page = Some href" and "status_code r = 200" and "body r = Some j"
  shows "fetch_channel_playlist_id channel_url mr k s
           = (uploads_of j,
              s\<lparr>net := rest,
                fetched := fetched s @ [channel_url, channels_url (last_segment href) mr k],
                stdout := stdout s @ map retry_message e1 @ map retry_message e2\<rparr>)"
proof -
  let ?s1 = "s\<lparr>net := map Raises e2 @ Responds r # rest, fetched := fetched s @ [channel_url],
               stdout := stdout s @ map retry_message e1\<rparr>"
  have c: "get_channel_id channel_url s = (Inr (last_segment href), ?s1)"
    using assms(2,3) by (rule get_channel_id_ok)
  have "request_json u ?s1
          = (Inr j, ?s1\<lparr>net := rest, fetched := fetched ?s1 @ [u],
                      stdout := stdout ?s1 @ map retry_message e2\<rparr>)" for u
    using assms(1,4,5) by (intro request_json_ok) simp_all
  with c show ?thesis
    by (simp add: fetch_channel_playlist_id_def)
qed

lemma is_substring_single: "is_substring [c] f \<longleftrightarrow> c \<in> set f"
  by (induction f) auto

lemma os_can_save_iff: "os_can_save f \<longleftrightarrow> (\<forall>c\<in>set forbidden. c \<notin> set f)"
  by (simp add: os_can_save_def is_substring_single filter_empty_conv)

lemma validate_args_forbidden:
  assumes "c \<in> set forbidden" and "c \<in> set (out a)"
    and "net s = map Raises e1 @ Responds r1 # map Raises e2 @ Responds r2 # rest"
  shows "\<exists>m. validate_args a s
           = (Inr (m @ ''Error: file name can not contain '' @ forbidden @ '' symbols!\<newline>''),
              s\<lparr>net := rest, fetched := fetched s @ [url a, validation_url (key a)],
                stdout := stdout s @ map retry_message e1 @ map retry_message e2\<rparr>)"
proof -
  let ?s1 = "s\<lparr>net := map Raises e2 @ Responds r2 # rest, fetched := fetched s @ [url a],
               stdout := stdout s @ map retry_message e1\<rparr>"
  have 1: "stubborn_request (url a) s = (Inr r1, ?s1)"
    using assms(3) by (rule stubborn_request_script)
  have 2: "stubborn_request u ?s1
             = (Inr r2, ?s1\<lparr>net := rest, fetched := fetched ?s1 @ [u],
                   stdout := stdout ?s1 @ map retry_message e2\<rparr>)" for u
    by (intro stubborn_request_script) simp
  have "\<not> os_can_save (out a)"
    using assms(1,2) by (auto simp: os_can_save_iff)
  then show ?thesis
    unfolding validate_args_def by (simp add: 1 2 del: append_assoc add: append_assoc [symmetric])
qed


lemma get_args_keeps:
  assumes "py_int int_of (maxr parsed) = Inr n"
  shows "\<exists>a s1. get_args int_of parsed s = (Inr a, s1) \<and> url a = url parsed \<and> key a = key parsed
           \<and> out a = out parsed \<and> net s1 = net s \<and> fetched s1 = fetched s
           \<and> files s1 = files s"
  using assms by (simp add: get_args_def correct_args_def print_def)

lemma run_records:
  assumes "list_all wf_page ps" and "list_all fits ps" and "list_all more_pages ps"
    and "wf_page q" and "fits q" and "\<not> more_pages q"
    and "api_request_allow s" and "net s = concat (map script_of (ps @ [q])) @ rest"
  shows "fst (get_videos_list pid mr k lurl vurl s) = Inr (concat (map records_of (ps @ [q])))"
proof -
  from assms(8) have "net s = concat (map script_of ps) @ (script_of q @ rest)" by simp
  from loop_prefix [OF assms(1,2,3,7) this, of pid mr k lurl vurl "[]" "[]" 0]
  obtain s' where s': "get_videos_loop pid mr k lurl vurl True [] [] 0 s
      = get_videos_loop pid mr k lurl vurl True (token_through [] ps)
          ([] @ concat (map records_of ps)) (0 + entries_in ps) s'"
    "api_request_allow s'" "net s' = script_of q @ rest"
    by blast
  show ?thesis
    unfolding get_videos_list_def s'(1)
    using loop_last(1) [OF assms(4,6) s'(2,3)] assms(5) by simp
qed

lemma concat_nth_page:
  assumes "j < length pages" and "i < length (f (pages ! j))"
  shows "concat (map f pages) ! (length (concat (map f (take j pages))) + i) = f (pages ! j) ! i"
proof -
  have "pages = take j pages @ pages ! j # drop (Suc j) pages"
    using assms(1) by (simp add: id_take_nth_drop [symmetric])
  then have "concat (map f pages)
               = concat (map f (take j pages)) @ f (pages ! j) @ concat (map f (drop (Suc j) pages))"
    by (metis concat.simps(2) concat_append list.simps(9) map_append)
  then show ?thesis
    using assms(2) by (simp add: nth_append)
qed

lemma record_at:
  assumes "fits p" and "i < length (items_of (statistics_response p))"
  shows "records_of p ! i
           = record_of (entries_of (items_response p) ! i) (items_of (statistics_response p) ! i)"
    and "i < length (records_of p)"
  using assms by (simp_all add: records_of_def fits_def)

lemma entry_parses:
  assumes "wf_listing r" and "i < length (entries_of r)"
  shows "parses_entry (entries_of r ! i)"
proof -
  from assms(1) have "list_all wf_entry (entries_of r)"
    by (simp add: wf_listing_def entries_of_def wf_entries)
  with assms(2) show ?thesis
    by (simp add: list_all_length wf_entry_def)
qed

lemma publish_time_record_of:
  assumes "parses_entry e"
  shows "contains ''publishedAt'' (member e ''snippet'') = Inr False \<Longrightarrow>
           publish_time (record_of e v) = JNull"
    and "member (member e ''snippet'') ''publishedAt'' = JStr t \<Longrightarrow>
           strip_TZ (JStr t) = Inr (publish_time (record_of e v))"
  using assms
  by (simp_all add: record_of_def parses_entry_def missing_member)

section \<open>Two pages of a channel, and other inputs\<close>

text \<open>
  A channel with three videos on two pages: the first page has two entries, a cursor and
  one failed attempt before its listing arrives; the second has one entry and no cursor.
  The second entry has no \<^verbatim>\<open>publishedAt\<close>. The theorems below are instantiated on
  them, on a response that refuses a request, and on two pages whose statistics response
  is shorter and longer than the page.
\<close>

definition ok :: "json \<Rightarrow> response" where
  "ok j = \<lparr>status_code = 200, body = Some j, canonical_href = None\<rparr>"

definition entry :: "string \<Rightarrow> (string \<times> json) list \<Rightarrow> json" where
  "entry video_id snippet =
     JObj [(''kind'', JStr ''youtube#playlistItem''), (''snippet'', JObj snippet),
           (''contentDetails'', JObj [(''videoId'', JStr video_id)])]"

definition stat :: "string \<Rightarrow> json" where
  "stat n = JObj [(''statistics'', JObj [(''viewCount'', JStr n), (''likeCount'', JStr ''2'')])]"

definition page_one :: page where
  "page_one =
     \<lparr>before_items = [Timeout],
      items_response =
        ok (JObj [(''items'',
                    JArr [entry ''va'' [(''title'', JStr ''a''),
                                        (''publishedAt'', JStr ''2021-05-01T12:00:00Z'')],
                          entry ''vb'' [(''title'', JStr ''b'')]]),
                  (''nextPageToken'', JStr ''p2'')]),
      before_statistics = [],
      statistics_response = ok (JObj [(''items'', JArr [stat ''10'', stat ''20''])])\<rparr>"

definition page_two :: page where
  "page_two =
     \<lparr>before_items = [],
      items_response = ok (JObj [(''items'', JArr [entry ''vc'' [(''description'', JStr ''c'')]])]),
      before_statistics = [ConnectionError],
      statistics_response = ok (JObj [(''items'', JArr [stat ''30''])])\<rparr>"

definition world0 :: "attempt list \<Rightarrow> world" where
  "world0 script =
     \<lparr>api_request_allow = True, net = script, fetched = [], stdout = [], files = []\<rparr>"

definition refusal :: response where
  "refusal = \<lparr>status_code = 403, body = None, canonical_href = None\<rparr>"

definition short_page :: page where
  "short_page =
     \<lparr>before_items = [],
      items_response =
        ok (JObj [(''items'', JArr [entry ''va'' [(''title'', JStr ''a'')],
                                   entry ''vb'' [(''title'', JStr ''b'')]])]),
      before_statistics = [],
      statistics_response = ok (JObj [(''items'', JArr [stat ''10''])])\<rparr>"

definition long_page :: page where
  "long_page =
     \<lparr>before_items = [],
      items_response = ok (JObj [(''items'', JArr [entry ''va'' [(''title'', JStr ''a'')]])]),
      before_statistics = [],
      statistics_response = ok (JObj [(''items'', JArr [stat ''10'', stat ''20''])])\<rparr>"

definition no_content :: response where
  "no_content = \<lparr>status_code = 204, body = None, canonical_href = None\<rparr>"

definition args_with :: "string \<Rightarrow> arg \<Rightarrow> args" where
  "args_with file_name page_size =
     \<lparr>url = ''https://www.youtube.com/c/x'', key = ''K'', out = file_name, maxr = page_size\<rparr>"

definition no_id_listing :: response where
  "no_id_listing =
     ok (JObj [(''items'',
                JArr [JObj [(''kind'', JStr ''youtube#playlistItem''),
                            (''snippet'', JObj [(''title'', JStr ''b'')]),
                            (''contentDetails'', JObj [])]])])"

definition channel_page :: response where
  "channel_page =
     \<lparr>status_code = 200, body = None,
      canonical_href = Some ''https://www.youtube.com/channel/UC123''\<rparr>"

definition no_channel :: response where
  "no_channel = ok (JObj [(''items'', JArr [])])"

text \<open>What \<^verbatim>\<open>int\<close> returns on the four page sizes of the claims, \<^verbatim>\<open>"0"\<close>,
  \<^verbatim>\<open>"-5"\<close>, \<^verbatim>\<open>"200"\<close> and \<^verbatim>\<open>"25"\<close>: the instances below hand it no other
  string.\<close>

definition sizes :: "string \<Rightarrow> int option" where
  "sizes = map_of [(''0'', 0), (''-5'', - 5), (''200'', 200), (''25'', 25)]"

lemmas page_defs = page_one_def page_two_def ok_def entry_def stat_def world0_def
  wf_page_def wf_listing_def wf_statistics_def fits_def more_pages_def has_cursor_def
  document_def items_of_def entries_of_def member_def is_entry_def wf_item_def wf_entry_def parses_entry_def
  wf_stat_def records_of_def record_of_def script_of_def youtube_link_def

section \<open>The claims\<close>



text \<open>
  C2. Pagination terminates: on a run through pages of the API's shape, the last of which
  is the first without a cursor, \<^verbatim>\<open>get_videos_list\<close> returns; it has fetched, for
  each page in turn, the page's listing and then its statistics, two urls a page, and it
  has taken nothing from the network after the page without a cursor.
\<close>

theorem pagination_terminates:
  assumes "list_all wf_page ps" and "list_all fits ps" and "list_all more_pages ps"
    and "wf_page q" and "fits q" and "\<not> more_pages q"
    and "api_request_allow s" and "net s = concat (map script_of (ps @ [q])) @ rest"
  shows "(\<exists>videos. fst (get_videos_list pid mr k lurl vurl s) = Inr videos)
       \<and> fetched (snd (get_videos_list pid mr k lurl vurl s))
           = fetched s @ requests_of pid mr k lurl vurl [] (ps @ [q])
       \<and> length (requests_of pid mr k lurl vurl [] (ps @ [q])) = 2 * length (ps @ [q])
       \<and> net (snd (get_videos_list pid mr k lurl vurl s)) = rest"
proof -
  from assms(8) have "net s = concat (map script_of ps) @ (script_of q @ rest)" by simp
  from loop_prefix [OF assms(1,2,3,7) this, of pid mr k lurl vurl "[]" "[]" 0]
  obtain s' where s': "get_videos_loop pid mr k lurl vurl True [] [] 0 s
      = get_videos_loop pid mr k lurl vurl True (token_through [] ps)
          ([] @ concat (map records_of ps)) (0 + entries_in ps) s'"
    "api_request_allow s'" "net s' = script_of q @ rest"
    "fetched s' = fetched s @ requests_of pid mr k lurl vurl [] ps"
    by blast
  show ?thesis
    unfolding get_videos_list_def s'(1)
    using loop_last [OF assms(4,6) s'(2,3)] assms(5) s'(4)
    by (simp add: requests_of_append length_requests_of)
qed

theorem pagination_terminates_witness:
  "list_all wf_page [page_one] \<and> list_all fits [page_one] \<and> list_all more_pages [page_one]
   \<and> wf_page page_two \<and> fits page_two \<and> \<not> more_pages page_two
   \<and> (\<exists>videos. fst (get_videos_list (JStr ''PL'') 50 ''K'' get_playlist_url get_videos_url
          (world0 (script_of page_one @ script_of page_two @ script_of page_one))) = Inr videos)
   \<and> fetched (snd (get_videos_list (JStr ''PL'') 50 ''K'' get_playlist_url get_videos_url
          (world0 (script_of page_one @ script_of page_two @ script_of page_one))))
       = [''https://www.googleapis.com/youtube/v3/playlistItems?key=K&playlistId=PL&part=snippet,id,contentDetails&maxResults=50'',
          ''https://www.googleapis.com/youtube/v3/videos?key=K&maxResults=50&part=statistics&id=va,vb'',
          ''https://www.googleapis.com/youtube/v3/playlistItems?key=K&playlistId=PL&part=snippet,id,contentDetails&maxResults=50&pageToken=p2'',
          ''https://www.googleapis.com/youtube/v3/videos?key=K&maxResults=50&part=statistics&id=vc'']
   \<and> net (snd (get_videos_list (JStr ''PL'') 50 ''K'' get_playlist_url get_videos_url
          (world0 (script_of page_one @ script_of page_two @ script_of page_one))))
       = script_of page_one"
proof -
  have h: "list_all wf_page [page_one]" "list_all fits [page_one]" "list_all more_pages [page_one]"
    "wf_page page_two" "fits page_two" "\<not> more_pages page_two"
    by (simp_all add: page_defs)
  have w: "api_request_allow (world0 (script_of page_one @ script_of page_two @ script_of page_one))"
    "net (world0 (script_of page_one @ script_of page_two @ script_of page_one))
       = concat (map script_of ([page_one] @ [page_two])) @ script_of page_one"
    "fetched (world0 (script_of page_one @ script_of page_two @ script_of page_one)) = []"
    by (simp_all add: world0_def)
  have r: "requests_of (JStr ''PL'') 50 ''K'' get_playlist_url get_videos_url [] ([page_one] @ [page_two])
       = [''https://www.googleapis.com/youtube/v3/playlistItems?key=K&playlistId=PL&part=snippet,id,contentDetails&maxResults=50'',
          ''https://www.googleapis.com/youtube/v3/videos?key=K&maxResults=50&part=statistics&id=va,vb'',
          ''https://www.googleapis.com/youtube/v3/playlistItems?key=K&playlistId=PL&part=snippet,id,contentDetails&maxResults=50&pageToken=p2'',
          ''https://www.googleapis.com/youtube/v3/videos?key=K&maxResults=50&part=statistics&id=vc'']"
    by (simp add: page_defs playlist_url_def statistics_url_def get_playlist_url_def
        get_videos_url_def ids_of_def token_after_def show_int_def show_nat.simps digit_def)
  show ?thesis
    using pagination_terminates [OF h w(1,2), of "JStr ''PL''" 50 "''K''" get_playlist_url
        get_videos_url] h
    by (simp only: r w(3) simp_thms append_Nil)
qed

text \<open>
  C1. Partial-failure truncation: when the statistics request of page \<open>k\<close> is answered
  with a status other than 200, after \<open>k - 1\<close> pages of the API's shape with cursors and
  a listing of page \<open>k\<close> of the API's shape, \<^verbatim>\<open>get_videos_list\<close> returns normally,
  with exactly the records of the pages before \<open>k\<close>; the entries of page \<open>k\<close> are not
  in the result, and the gate is closed.
\<close>

theorem truncated_at_statistics:
  assumes "list_all wf_page ps" and "list_all fits ps" and "list_all more_pages ps"
    and "wf_listing lr" and "status_code bad \<noteq> 200" and "api_request_allow s"
    and "net s = concat (map script_of ps)
                   @ map Raises e1 @ Responds lr # map Raises e2 @ Responds bad # rest"
  shows "fst (get_videos_list pid mr k lurl vurl s) = Inr (concat (map records_of ps))
       \<and> \<not> api_request_allow (snd (get_videos_list pid mr k lurl vurl s))
       \<and> net (snd (get_videos_list pid mr k lurl vurl s)) = rest"
proof -
  from loop_prefix [OF assms(1,2,3,6,7), of pid mr k lurl vurl "[]" "[]" 0]
  obtain s' where s': "get_videos_loop pid mr k lurl vurl True [] [] 0 s
      = get_videos_loop pid mr k lurl vurl True (token_through [] ps)
          ([] @ concat (map records_of ps)) (0 + entries_in ps) s'"
    "api_request_allow s'"
    "net s' = map Raises e1 @ Responds lr # map Raises e2 @ Responds bad # rest"
    by blast
  show ?thesis
    unfolding get_videos_list_def s'(1)
    using loop_refused [OF assms(4,5) s'(2,3)] by simp
qed

theorem truncated_at_statistics_witness:
  "list_all wf_page [page_one] \<and> list_all fits [page_one] \<and> list_all more_pages [page_one]
   \<and> wf_listing (items_response page_two) \<and> status_code refusal \<noteq> 200
   \<and> fst (get_videos_list (JStr ''PL'') 50 ''K'' get_playlist_url get_videos_url
            (world0 (script_of page_one @ [Responds (items_response page_two), Responds refusal])))
       = Inr [\<lparr>title = JStr ''a'', link = ''https://www.youtube.com/watch?v=va'',
                publish_time = JStr ''2021-05-01 12:00:00'', views = JStr ''10'',
                likes = JStr ''2'', comments_number = JNull, description = JNull\<rparr>,
              \<lparr>title = JStr ''b'', link = ''https://www.youtube.com/watch?v=vb'',
                publish_time = JNull, views = JStr ''20'',
                likes = JStr ''2'', comments_number = JNull, description = JNull\<rparr>]
   \<and> \<not> api_request_allow (snd (get_videos_list (JStr ''PL'') 50 ''K'' get_playlist_url
            get_videos_url
            (world0 (script_of page_one @ [Responds (items_response page_two), Responds refusal]))))"
proof -
  have h: "list_all wf_page [page_one]" "list_all fits [page_one]" "list_all more_pages [page_one]"
    "wf_listing (items_response page_two)" "status_code refusal \<noteq> 200"
    by (simp_all add: page_defs refusal_def)
  have w: "api_request_allow
             (world0 (script_of page_one @ [Responds (items_response page_two), Responds refusal]))"
    "net (world0 (script_of page_one @ [Responds (items_response page_two), Responds refusal]))
       = concat (map script_of [page_one])
           @ map Raises [] @ Responds (items_response page_two) # map Raises [] @ Responds refusal # []"
    by (simp_all add: world0_def)
  have r: "concat (map records_of [page_one])
       = [\<lparr>title = JStr ''a'', link = ''https://www.youtube.com/watch?v=va'',
                publish_time = JStr ''2021-05-01 12:00:00'', views = JStr ''10'',
                likes = JStr ''2'', comments_number = JNull, description = JNull\<rparr>,
              \<lparr>title = JStr ''b'', link = ''https://www.youtube.com/watch?v=vb'',
                publish_time = JNull, views = JStr ''20'',
                likes = JStr ''2'', comments_number = JNull, description = JNull\<rparr>]"
    by (simp add: page_defs replace_def)
  show ?thesis
    using truncated_at_statistics [OF h w, of "JStr ''PL''" 50 "''K''" get_playlist_url
        get_videos_url] h
    by (simp only: r simp_thms)
qed

text \<open>
  C10. The statistics response decides how many records a page gives. On a page of the
  API's shape whose statistics response has more items than the page has entries,
  \<^verbatim>\<open>get_videos_list\<close> raises \<^verbatim>\<open>IndexError\<close>: it reads its buffers out of range.
  Otherwise the page gives as many records as the statistics response has items, those of
  its first entries, and the entries after them are left out without a word.
\<close>

theorem statistics_count_decides:
  assumes "list_all wf_page ps" and "list_all fits ps" and "list_all more_pages ps"
    and "wf_page q" and "api_request_allow s"
    and "net s = concat (map script_of (ps @ [q])) @ rest"
  shows "(\<not> fits q \<longrightarrow> fst (get_videos_list pid mr k lurl vurl s) = Inl IndexError)
       \<and> (fits q \<and> \<not> more_pages q \<longrightarrow>
            fst (get_videos_list pid mr k lurl vurl s)
              = Inr (concat (map records_of ps) @ records_of q))
       \<and> (fits q \<longrightarrow>
            length (records_of q) = length (items_of (statistics_response q))
            \<and> records_of q
                = map2 record_of
                    (take (length (items_of (statistics_response q)))
                       (entries_of (items_response q)))
                    (items_of (statistics_response q)))"
proof -
  from assms(6) have "net s = concat (map script_of ps) @ (script_of q @ rest)" by simp
  from loop_prefix [OF assms(1,2,3,5) this, of pid mr k lurl vurl "[]" "[]" 0]
  obtain s' where s': "get_videos_loop pid mr k lurl vurl True [] [] 0 s
      = get_videos_loop pid mr k lurl vurl True (token_through [] ps)
          ([] @ concat (map records_of ps)) (0 + entries_in ps) s'"
    "api_request_allow s'" "net s' = script_of q @ rest"
    by blast
  have "fst (get_videos_list pid mr k lurl vurl s) = Inl IndexError" if "\<not> fits q"
    unfolding get_videos_list_def s'(1)
    using loop_overflow [OF assms(4) that s'(2,3)] by simp
  moreover have "fst (get_videos_list pid mr k lurl vurl s)
              = Inr (concat (map records_of ps) @ records_of q)" if "fits q" "\<not> more_pages q"
    unfolding get_videos_list_def s'(1)
    using loop_last(1) [OF assms(4) that(2) s'(2,3)] that(1) by simp
  moreover have "length (records_of q) = length (items_of (statistics_response q))"
    "records_of q
       = map2 record_of
           (take (length (items_of (statistics_response q))) (entries_of (items_response q)))
           (items_of (statistics_response q))" if "fits q"
    using that by (simp_all add: records_of_def fits_def zip_take_left)
  ultimately show ?thesis by blast
qed

theorem statistics_count_decides_witness:
  "wf_page long_page \<and> \<not> fits long_page \<and> wf_page short_page \<and> fits short_page
   \<and> \<not> more_pages short_page
   \<and> fst (get_videos_list (JStr ''PL'') 50 ''K'' get_playlist_url get_videos_url
            (world0 (script_of long_page))) = Inl IndexError
   \<and> fst (get_videos_list (JStr ''PL'') 50 ''K'' get_playlist_url get_videos_url
            (world0 (script_of short_page)))
       = Inr [\<lparr>title = JStr ''a'', link = ''https://www.youtube.com/watch?v=va'',
                publish_time = JNull, views = JStr ''10'',
                likes = JStr ''2'', comments_number = JNull, description = JNull\<rparr>]
   \<and> length (entries_of (items_response short_page)) = 2"
proof -
  have h: "wf_page long_page" "\<not> fits long_page" "wf_page short_page" "fits short_page"
    "\<not> more_pages short_page"
    by (simp_all add: page_defs long_page_def short_page_def)
  have w: "api_request_allow (world0 (script_of p))"
    "net (world0 (script_of p)) = concat (map script_of ([] @ [p])) @ []" for p
    by (simp_all add: world0_def)
  have r: "records_of short_page
       = [\<lparr>title = JStr ''a'', link = ''https://www.youtube.com/watch?v=va'',
                publish_time = JNull, views = JStr ''10'',
                likes = JStr ''2'', comments_number = JNull, description = JNull\<rparr>]"
    "length (entries_of (items_response short_page)) = 2"
    by (simp_all add: page_defs short_page_def)
  have "fst (get_videos_list (JStr ''PL'') 50 ''K'' get_playlist_url get_videos_url
          (world0 (script_of long_page))) = Inl IndexError"
    using statistics_count_decides [OF _ _ _ h(1) w, where pid = "JStr ''PL''" and mr = 50
        and k = "''K''" and lurl = get_playlist_url and vurl = get_videos_url] h(2)
    by simp
  moreover have "fst (get_videos_list (JStr ''PL'') 50 ''K'' get_playlist_url get_videos_url
          (world0 (script_of short_page))) = Inr (records_of short_page)"
    using statistics_count_decides [OF _ _ _ h(3) w, where pid = "JStr ''PL''" and mr = 50
        and k = "''K''" and lurl = get_playlist_url and vurl = get_videos_url] h(4,5)
    by simp
  ultimately show ?thesis
    using h r by simp
qed

text \<open>
  C3 (as the code has it). A call of \<^verbatim>\<open>api_get_request\<close> with the gate open, which
  gets a response after any number of failed attempts: when the status is exactly 200 the
  response is returned and the gate stays open; on any other status, the other 2xx codes
  among them, the gate closes and the message is printed, and then the call raises
  \<^verbatim>\<open>SystemExit\<close> (exit status 1) when \<^verbatim>\<open>exit_if_not\<close> is true and returns
  \<^verbatim>\<open>False\<close>, which is no response, when it is false.
\<close>

theorem api_get_request_open_gate:
  assumes "api_request_allow s" and "net s = map Raises es @ Responds r # rest"
  shows "api_get_request u exit_if_not s
           = (if status_code r = 200
              then (Inr (Some r),
                    s\<lparr>net := rest, fetched := fetched s @ [u],
                      stdout := stdout s @ map retry_message es\<rparr>)
              else (if exit_if_not then Inl (SystemExit ''exit'') else Inr None,
                    s\<lparr>api_request_allow := False, net := rest, fetched := fetched s @ [u],
                      stdout := stdout s @ map retry_message es
                                  @ [''\<newline>Api response error!\<newline>'']\<rparr>))
       \<and> exit_status (Inl (SystemExit ''exit'')) = Some 1"
  using assms
  by (simp add: api_get_request_def stubborn_request_script gate_closed_def print_def)

theorem api_get_request_open_gate_witness:
  "api_request_allow (world0 [Raises Timeout, Responds refusal])
   \<and> api_get_request ''u'' True (world0 [Raises Timeout, Responds refusal])
       = (Inl (SystemExit ''exit''),
          \<lparr>api_request_allow = False, net = [], fetched = [''u''],
           stdout = [''Timeout error... Retry'', ''\<newline>Api response error!\<newline>''], files = []\<rparr>)
   \<and> api_get_request ''u'' False (world0 [Responds (ok JNull)])
       = (Inr (Some (ok JNull)),
          \<lparr>api_request_allow = True, net = [], fetched = [''u''], stdout = [], files = []\<rparr>)"
proof -
  have a: "api_request_allow (world0 n)" for n
    by (simp add: world0_def)
  have n: "net (world0 [Raises Timeout, Responds refusal]) = map Raises [Timeout] @ Responds refusal # []"
    "net (world0 [Responds (ok JNull)]) = map Raises [] @ Responds (ok JNull) # []"
    by (simp_all add: world0_def)
  show ?thesis
    using api_get_request_open_gate [OF a n(1), of "''u''" True]
      api_get_request_open_gate [OF a n(2), of "''u''" False]
    by (simp add: world0_def refusal_def ok_def)
qed

theorem api_get_request_204_counterexample:
  "status_code no_content = 204
   \<and> fst (api_get_request ''u'' False (world0 [Responds no_content])) = Inr None
   \<and> \<not> api_request_allow (snd (api_get_request ''u'' False (world0 [Responds no_content])))"
  by (simp add: api_get_request_def stubborn_request_def gate_closed_def print_def world0_def
      no_content_def)

text \<open>
  C4 (the code against the claim). A playlist entry without a \<^verbatim>\<open>videoId\<close> stops
  the run: on a listing whose items parse and one of whose entries has a contentDetails
  object without \<^verbatim>\<open>videoId\<close>, after any pages of the API's shape,
  \<^verbatim>\<open>get_videos_list\<close> raises \<^verbatim>\<open>TypeError\<close> (the join of the ids meets
  \<^verbatim>\<open>None\<close>), and the statistics of the page are never requested.
\<close>

theorem missing_video_id_raises:
  assumes "list_all wf_page ps" and "list_all fits ps" and "list_all more_pages ps"
    and "status_code lr = 200" and "is_array (member (document lr) ''items'')"
    and "list_all parses_item (items_of lr)"
    and "e \<in> set (entries_of lr)" and "contains ''videoId'' (member e ''contentDetails'') = Inr False"
    and "api_request_allow s"
    and "net s = concat (map script_of ps) @ map Raises es @ Responds lr # rest"
  shows "fst (get_videos_list pid mr k lurl vurl s) = Inl TypeError
       \<and> fetched (snd (get_videos_list pid mr k lurl vurl s))
           = fetched s @ requests_of pid mr k lurl vurl [] ps
               @ [playlist_url pid mr k lurl (token_through [] ps)]
       \<and> net (snd (get_videos_list pid mr k lurl vurl s)) = rest"
proof -
  from loop_prefix [OF assms(1,2,3,9,10), of pid mr k lurl vurl "[]" "[]" 0]
  obtain s' where s': "get_videos_loop pid mr k lurl vurl True [] [] 0 s
      = get_videos_loop pid mr k lurl vurl True (token_through [] ps)
          ([] @ concat (map records_of ps)) (0 + entries_in ps) s'"
    "api_request_allow s'" "net s' = map Raises es @ Responds lr # rest"
    "fetched s' = fetched s @ requests_of pid mr k lurl vurl [] ps"
    by blast
  show ?thesis
    unfolding get_videos_list_def s'(1)
    using turn_of_missing_id [OF assms(4,5,6,7,8) s'(2,3), of pid mr k lurl vurl
        "token_through [] ps" "[] @ concat (map records_of ps)" "0 + entries_in ps"] s'(4)
    by (simp add: get_videos_loop.simps [of _ _ _ _ _ True])
qed

theorem missing_video_id_raises_witness:
  "status_code no_id_listing = 200 \<and> is_array (member (document no_id_listing) ''items'')
   \<and> list_all parses_item (items_of no_id_listing)
   \<and> entries_of no_id_listing
       = [JObj [(''kind'', JStr ''youtube#playlistItem''), (''snippet'', JObj [(''title'', JStr ''b'')]),
                (''contentDetails'', JObj [])]]
   \<and> contains ''videoId'' (JObj []) = Inr False
   \<and> fst (get_videos_list (JStr ''PL'') 50 ''K'' get_playlist_url get_videos_url
            (world0 [Responds no_id_listing, Responds (statistics_response page_two)]))
       = Inl TypeError
   \<and> fetched (snd (get_videos_list (JStr ''PL'') 50 ''K'' get_playlist_url get_videos_url
            (world0 [Responds no_id_listing, Responds (statistics_response page_two)])))
       = [''https://www.googleapis.com/youtube/v3/playlistItems?key=K&playlistId=PL&part=snippet,id,contentDetails&maxResults=50'']
   \<and> net (snd (get_videos_list (JStr ''PL'') 50 ''K'' get_playlist_url get_videos_url
            (world0 [Responds no_id_listing, Responds (statistics_response page_two)])))
       = [Responds (statistics_response page_two)]"
proof -
  let ?e = "JObj [(''kind'', JStr ''youtube#playlistItem''), (''snippet'', JObj [(''title'', JStr ''b'')]),
                  (''contentDetails'', JObj [])]"
  let ?w = "world0 [Responds no_id_listing, Responds (statistics_response page_two)]"
  have h: "status_code no_id_listing = 200" "is_array (member (document no_id_listing) ''items'')"
    "list_all parses_item (items_of no_id_listing)" "entries_of no_id_listing = [?e]"
    "contains ''videoId'' (member ?e ''contentDetails'') = Inr False"
    by (simp_all add: no_id_listing_def ok_def document_def member_def items_of_def entries_of_def
        is_entry_def parses_item_def parses_entry_def)
  have e: "?e \<in> set (entries_of no_id_listing)"
    by (simp only: h(4) list.set_intros)
  have w: "api_request_allow ?w"
    "net ?w = concat (map script_of []) @ map Raises [] @ Responds no_id_listing
                # [Responds (statistics_response page_two)]"
    "fetched ?w = []"
    by (simp_all add: world0_def)
  have u: "playlist_url (JStr ''PL'') 50 ''K'' get_playlist_url (token_through [] [])
       = ''https://www.googleapis.com/youtube/v3/playlistItems?key=K&playlistId=PL&part=snippet,id,contentDetails&maxResults=50''"
    by (simp add: playlist_url_def get_playlist_url_def token_through_def show_int_def
        show_nat.simps digit_def)
  have c: "contains ''videoId'' (JObj []) = Inr False"
    by simp
  show ?thesis
    using missing_video_id_raises [OF _ _ _ h(1,2,3) e h(5) w(1,2), where pid = "JStr ''PL''"
        and mr = 50 and k = "''K''" and lurl = get_playlist_url and vurl = get_videos_url] h(1,2,3,4) c
    by (simp add: u w(3))
qed

text \<open>
  C5 (the code against the claim). The channel lookup on a response with status 200:
  when its \<^verbatim>\<open>items\<close> array is empty, \<^verbatim>\<open>fetch_channel_playlist_id\<close> raises
  \<^verbatim>\<open>IndexError\<close>, the index fault of \<^verbatim>\<open>["items"][0]\<close>, and prints no message
  of its own; when it is not, the function returns the uploads playlist id of the first
  item.
\<close>

theorem empty_items_index_error:
  assumes "api_request_allow s"
    and "net s = map Raises e1 @ Responds page # map Raises e2 @ Responds r # rest"
    and "canonical_href page = Some href" and "status_code r = 200" and "body r = Some j"
    and "getitem j ''items'' = Inr (JArr items)"
  shows "(items = [] \<longrightarrow>
            fst (fetch_channel_playlist_id channel_url mr k s) = Inl IndexError
            \<and> stdout (snd (fetch_channel_playlist_id channel_url mr k s))
                = stdout s @ map retry_message e1 @ map retry_message e2)
       \<and> (items \<noteq> [] \<and> getitem (hd items) ''contentDetails'' = Inr cd
            \<and> getitem cd ''relatedPlaylists'' = Inr rp \<and> getitem rp ''uploads'' = Inr up \<longrightarrow>
            fst (fetch_channel_playlist_id channel_url mr k s) = Inr up)"
  using assms(6)
  by (cases items) (simp_all add: fetch_channel_playlist_id_ok [OF assms(1-5)] uploads_of_def)

theorem empty_items_index_error_witness:
  "api_request_allow (world0 [Responds channel_page, Responds no_channel])
   \<and> canonical_href channel_page = Some ''https://www.youtube.com/channel/UC123''
   \<and> status_code no_channel = 200 \<and> body no_channel = Some (JObj [(''items'', JArr [])])
   \<and> getitem (JObj [(''items'', JArr [])]) ''items'' = Inr (JArr [])
   \<and> fst (fetch_channel_playlist_id ''https://www.youtube.com/c/x'' 50 ''K''
            (world0 [Responds channel_page, Responds no_channel])) = Inl IndexError
   \<and> stdout (snd (fetch_channel_playlist_id ''https://www.youtube.com/c/x'' 50 ''K''
            (world0 [Responds channel_page, Responds no_channel]))) = []"
proof -
  let ?w = "world0 [Responds channel_page, Responds no_channel]"
  have h: "api_request_allow ?w"
    "net ?w = map Raises [] @ Responds channel_page # map Raises [] @ Responds no_channel # []"
    "canonical_href channel_page = Some ''https://www.youtube.com/channel/UC123''"
    "status_code no_channel = 200" "body no_channel = Some (JObj [(''items'', JArr [])])"
    "getitem (JObj [(''items'', JArr [])]) ''items'' = Inr (JArr [])"
    by (simp_all add: world0_def channel_page_def no_channel_def ok_def)
  have o: "stdout ?w = []"
    by (simp add: world0_def)
  show ?thesis
    using empty_items_index_error [OF h, of "''https://www.youtube.com/c/x''" 50 "''K''"] h
    by (simp add: o)
qed

text \<open>
  C9. Page-size clamp: when \<^verbatim>\<open>int(args.maxr)\<close> is \<open>n\<close>, \<^verbatim>\<open>correct_args\<close> sets
  \<^verbatim>\<open>maxr\<close> to the default 50 and prints the warning if \<open>n\<close> is not in the range
  from 1 to 50, and leaves the arguments and the output as they are if it is. This holds
  whatever \<^verbatim>\<open>int\<close> reads as a number.
\<close>

theorem correct_args_range:
  assumes "py_int int_of (maxr a) = Inr n"
  shows "correct_args int_of a s
           = (if n \<le> 0 \<or> 50 < n
              then (Inr (a\<lparr>maxr := ArgInt 50\<rparr>),
                    s\<lparr>stdout := stdout s @ [''warning: -maxr argument changed to default: 50'']\<rparr>)
              else (Inr a, s))"
  using assms
  by (simp add: correct_args_def default_max_results_def print_def show_int_def show_nat.simps
      digit_def)

theorem correct_args_range_witness:
  "py_int sizes (maxr (args_with ''f'' (ArgStr ''0''))) = Inr 0
   \<and> py_int sizes (maxr (args_with ''f'' (ArgStr ''-5''))) = Inr (- 5)
   \<and> py_int sizes (maxr (args_with ''f'' (ArgStr ''200''))) = Inr 200
   \<and> py_int sizes (maxr (args_with ''f'' (ArgStr ''25''))) = Inr 25
   \<and> correct_args sizes (args_with ''f'' (ArgStr ''0'')) (world0 [])
       = (Inr (args_with ''f'' (ArgInt 50)),
          (world0 [])\<lparr>stdout := [''warning: -maxr argument changed to default: 50'']\<rparr>)
   \<and> correct_args sizes (args_with ''f'' (ArgStr ''-5'')) (world0 [])
       = (Inr (args_with ''f'' (ArgInt 50)),
          (world0 [])\<lparr>stdout := [''warning: -maxr argument changed to default: 50'']\<rparr>)
   \<and> correct_args sizes (args_with ''f'' (ArgStr ''200'')) (world0 [])
       = (Inr (args_with ''f'' (ArgInt 50)),
          (world0 [])\<lparr>stdout := [''warning: -maxr argument changed to default: 50'']\<rparr>)
   \<and> correct_args sizes (args_with ''f'' (ArgStr ''25'')) (world0 [])
       = (Inr (args_with ''f'' (ArgStr ''25'')), world0 [])"
proof -
  have p: "py_int sizes (maxr (args_with ''f'' (ArgStr ''0''))) = Inr 0"
    "py_int sizes (maxr (args_with ''f'' (ArgStr ''-5''))) = Inr (- 5)"
    "py_int sizes (maxr (args_with ''f'' (ArgStr ''200''))) = Inr 200"
    "py_int sizes (maxr (args_with ''f'' (ArgStr ''25''))) = Inr 25"
    by (simp_all add: args_with_def sizes_def)
  have u: "(args_with f m)\<lparr>maxr := ArgInt 50\<rparr> = args_with f (ArgInt 50)" for f m
    by (simp add: args_with_def)
  have o: "stdout (world0 []) = []"
    by (simp add: world0_def)
  show ?thesis
    using correct_args_range [OF p(1), of "world0 []"] correct_args_range [OF p(2), of "world0 []"]
      correct_args_range [OF p(3), of "world0 []"] correct_args_range [OF p(4), of "world0 []"] p
    by (simp add: u o)
qed

text \<open>
  C8. Timestamp normalization and the missing timestamp. \<^verbatim>\<open>2021-05-01T12:00:00Z\<close>
  becomes \<^verbatim>\<open>2021-05-01 12:00:00\<close>; so does every timestamp of that shape: a date
  and a time without \<^verbatim>\<open>T\<close> or \<^verbatim>\<open>Z\<close>, joined by \<^verbatim>\<open>T\<close> and closed by
  \<^verbatim>\<open>Z\<close>, gives the date, a space and the time. And on a run through pages of the
  API's shape, \<^verbatim>\<open>get_videos_list\<close> returns a list in which the record of every
  entry of every page that has statistics (entry \<open>i\<close> of page \<open>j\<close>, after the records
  of the pages before) has as \<^verbatim>\<open>publish_time\<close> null when the entry's snippet has no
  \<^verbatim>\<open>publishedAt\<close>, and the \<^verbatim>\<open>publishedAt\<close> so normalized when it has one.
\<close>

theorem publish_time_normalized:
  "strip_TZ (JStr ''2021-05-01T12:00:00Z'') = Inr (JStr ''2021-05-01 12:00:00'')
   \<and> (CHR ''T'' \<notin> set d \<union> set t \<and> CHR ''Z'' \<notin> set d \<union> set t \<longrightarrow>
        strip_TZ (JStr (d @ ''T'' @ t @ ''Z'')) = Inr (JStr (d @ '' '' @ t)))
   \<and> (list_all wf_page ps \<and> list_all fits ps \<and> list_all more_pages ps
        \<and> wf_page q \<and> fits q \<and> \<not> more_pages q
        \<and> api_request_allow s \<and> net s = concat (map script_of (ps @ [q])) @ rest
        \<and> j < length (ps @ [q])
        \<and> i < length (items_of (statistics_response ((ps @ [q]) ! j))) \<longrightarrow>
        (\<exists>videos. fst (get_videos_list pid mr k lurl vurl s) = Inr videos
           \<and> (contains ''publishedAt''
                 (member (entries_of (items_response ((ps @ [q]) ! j)) ! i) ''snippet'') = Inr False \<longrightarrow>
                publish_time
                  (videos ! (length (concat (map records_of (take j (ps @ [q])))) + i)) = JNull)
           \<and> (\<forall>v. member (member (entries_of (items_response ((ps @ [q]) ! j)) ! i) ''snippet'')
                      ''publishedAt'' = JStr v \<longrightarrow>
                    strip_TZ (JStr v)
                      = Inr (publish_time
                               (videos ! (length (concat (map records_of (take j (ps @ [q])))) + i))))))"
proof -
  have a: "strip_TZ (JStr ''2021-05-01T12:00:00Z'') = Inr (JStr ''2021-05-01 12:00:00'')"
    by (simp add: replace_def)
  have c: "\<exists>videos. fst (get_videos_list pid mr k lurl vurl s) = Inr videos
           \<and> (contains ''publishedAt''
                 (member (entries_of (items_response ((ps @ [q]) ! j)) ! i) ''snippet'') = Inr False \<longrightarrow>
                publish_time
                  (videos ! (length (concat (map records_of (take j (ps @ [q])))) + i)) = JNull)
           \<and> (\<forall>v. member (member (entries_of (items_response ((ps @ [q]) ! j)) ! i) ''snippet'')
                      ''publishedAt'' = JStr v \<longrightarrow>
                    strip_TZ (JStr v)
                      = Inr (publish_time
                               (videos ! (length (concat (map records_of (take j (ps @ [q])))) + i))))"
    if h: "list_all wf_page ps" "list_all fits ps" "list_all more_pages ps"
      "wf_page q" "fits q" "\<not> more_pages q"
      "api_request_allow s" "net s = concat (map script_of (ps @ [q])) @ rest"
      and j: "j < length (ps @ [q])"
      and i: "i < length (items_of (statistics_response ((ps @ [q]) ! j)))"
  proof -
    let ?p = "(ps @ [q]) ! j"
    let ?e = "entries_of (items_response ?p) ! i"
    let ?v = "items_of (statistics_response ?p) ! i"
    let ?n = "length (concat (map records_of (take j (ps @ [q])))) + i"
    from h(1,2,4,5) have "list_all wf_page (ps @ [q])" "list_all fits (ps @ [q])"
      by simp_all
    with j have p: "wf_page ?p" "fits ?p"
      by (simp_all add: list_all_length)
    from record_at [OF p(2) i] have r: "records_of ?p ! i = record_of ?e ?v"
      "i < length (records_of ?p)" .
    from p(2) i have "i < length (entries_of (items_response ?p))"
      by (simp add: fits_def)
    with p(1) have e: "parses_entry ?e"
      by (simp add: wf_page_def entry_parses)
    have "concat (map records_of (ps @ [q])) ! ?n = record_of ?e ?v"
      using concat_nth_page [of j "ps @ [q]" i records_of, OF j r(2)] r(1) by simp
    with run_records [OF h, of pid mr k lurl vurl] publish_time_record_of [OF e, where v = ?v]
    show ?thesis
      by auto
  qed
  from a strip_TZ_timestamp c show ?thesis by blast
qed

theorem publish_time_normalized_witness:
  "list_all wf_page [page_one] \<and> list_all fits [page_one] \<and> list_all more_pages [page_one]
   \<and> wf_page page_two \<and> fits page_two \<and> \<not> more_pages page_two
   \<and> (0 :: nat) < length ([page_one] @ [page_two])
   \<and> (1 :: nat) < length (items_of (statistics_response (([page_one] @ [page_two]) ! 0)))
   \<and> member (member (entries_of (items_response page_one) ! 0) ''snippet'') ''publishedAt''
       = JStr ''2021-05-01T12:00:00Z''
   \<and> contains ''publishedAt'' (member (entries_of (items_response page_one) ! 1) ''snippet'')
       = Inr False
   \<and> (\<exists>videos. fst (get_videos_list (JStr ''PL'') 50 ''K'' get_playlist_url get_videos_url
                       (world0 (script_of page_one @ script_of page_two))) = Inr videos
         \<and> publish_time (videos ! 0) = JStr ''2021-05-01 12:00:00''
         \<and> publish_time (videos ! 1) = JNull)"
proof -
  let ?w = "world0 (script_of page_one @ script_of page_two)"
  have h: "list_all wf_page [page_one]" "list_all fits [page_one]" "list_all more_pages [page_one]"
    "wf_page page_two" "fits page_two" "\<not> more_pages page_two"
    by (simp_all add: page_defs)
  have w: "api_request_allow ?w"
    "net ?w = concat (map script_of ([page_one] @ [page_two])) @ []"
    by (simp_all add: world0_def)
  have n: "(0 :: nat) < length ([page_one] @ [page_two])"
    "(0 :: nat) < length (items_of (statistics_response (([page_one] @ [page_two]) ! 0)))"
    "(1 :: nat) < length (items_of (statistics_response (([page_one] @ [page_two]) ! 0)))"
    by (simp_all add: page_defs)
  have e: "member (member (entries_of (items_response page_one) ! 0) ''snippet'') ''publishedAt''
             = JStr ''2021-05-01T12:00:00Z''"
    "contains ''publishedAt'' (member (entries_of (items_response page_one) ! 1) ''snippet'')
       = Inr False"
    by (simp_all add: page_defs)
  from publish_time_normalized [of "[]" "[]" "[page_one]" page_two ?w "[]" 0 0
      "JStr ''PL''" 50 "''K''" get_playlist_url get_videos_url] h w n(1,2)
  obtain videos where v: "fst (get_videos_list (JStr ''PL'') 50 ''K'' get_playlist_url
        get_videos_url ?w) = Inr videos"
    "\<forall>v. member (member (entries_of (items_response page_one) ! 0) ''snippet'') ''publishedAt''
           = JStr v \<longrightarrow> strip_TZ (JStr v) = Inr (publish_time (videos ! 0))"
    by auto
  from publish_time_normalized [of "[]" "[]" "[page_one]" page_two ?w "[]" 0 1
      "JStr ''PL''" 50 "''K''" get_playlist_url get_videos_url] h w n(1,3) v(1)
  have u: "contains ''publishedAt'' (member (entries_of (items_response page_one) ! 1) ''snippet'')
             = Inr False \<longrightarrow> publish_time (videos ! 1) = JNull"
    by auto
  from publish_time_normalized [of "[]" "[]"] v(2) e(1)
  have "publish_time (videos ! 0) = JStr ''2021-05-01 12:00:00''"
    by simp
  with u e(2) v(1) h n(1,3) e show ?thesis
    by blast
qed

text \<open>
  C6 (as the code has it). A run whose output name contains one of the forbidden
  characters, whose page size \<^verbatim>\<open>int\<close> reads as a number and whose two validation
  requests are answered: \<^verbatim>\<open>main\<close> prints the validation message, which ends with
  the file-name error, and returns, so that the exit status is 0. It has fetched the
  channel url and the probe of the API key, and nothing else; it has written no file.
\<close>

theorem forbidden_name_returns:
  assumes "c \<in> set forbidden" and "c \<in> set (out parsed)"
    and "py_int int_of (maxr parsed) = Inr n"
    and "net s = map Raises e1 @ Responds r1 # map Raises e2 @ Responds r2 # rest"
  shows "fst (main int_of parsed s) = Inr () \<and> exit_status (fst (main int_of parsed s)) = Some 0
       \<and> fetched (snd (main int_of parsed s))
           = fetched s @ [url parsed, validation_url (key parsed)]
       \<and> net (snd (main int_of parsed s)) = rest
       \<and> files (snd (main int_of parsed s)) = files s
       \<and> (\<exists>m. last (stdout (snd (main int_of parsed s)))
                = m @ ''Error: file name can not contain '' @ forbidden @ '' symbols!\<newline>'')"
proof -
  from get_args_keeps [OF assms(3), of s] obtain a s1 where
    a: "get_args int_of parsed s = (Inr a, s1)" "url a = url parsed" "key a = key parsed"
      "out a = out parsed" "net s1 = net s" "fetched s1 = fetched s" "files s1 = files s"
    by blast
  from assms(2,4) a have "c \<in> set (out a)"
    "net s1 = map Raises e1 @ Responds r1 # map Raises e2 @ Responds r2 # rest"
    by simp_all
  from validate_args_forbidden [OF assms(1) this] obtain m where
    "validate_args a s1
       = (Inr (m @ ''Error: file name can not contain '' @ forbidden @ '' symbols!\<newline>''),
          s1\<lparr>net := rest, fetched := fetched s1 @ [url a, validation_url (key a)],
             stdout := stdout s1 @ map retry_message e1 @ map retry_message e2\<rparr>)"
    by blast
  with a show ?thesis
    by (simp add: main_def print_def)
qed

theorem forbidden_name_returns_witness:
  "CHR ''/'' \<in> set forbidden \<and> CHR ''/'' \<in> set (out (args_with ''a/b'' (ArgStr ''25'')))
   \<and> py_int sizes (maxr (args_with ''a/b'' (ArgStr ''25''))) = Inr 25
   \<and> fst (main sizes (args_with ''a/b'' (ArgStr ''25''))
            (world0 [Responds channel_page, Responds no_channel]))
       = Inr ()
   \<and> fetched (snd (main sizes (args_with ''a/b'' (ArgStr ''25''))
                     (world0 [Responds channel_page, Responds no_channel])))
       = [''https://www.youtube.com/c/x'',
          ''https://youtube.googleapis.com/youtube/v3/channels?part=contentDetails&id=UCK8sQmJBp8GCxrOtXWBpyEA&maxResults=50&key=K'']
   \<and> files (snd (main sizes (args_with ''a/b'' (ArgStr ''25''))
                   (world0 [Responds channel_page, Responds no_channel]))) = []"
proof -
  let ?w = "world0 [Responds channel_page, Responds no_channel]"
  have h: "CHR ''/'' \<in> set forbidden" "CHR ''/'' \<in> set (out (args_with ''a/b'' (ArgStr ''25'')))"
    "py_int sizes (maxr (args_with ''a/b'' (ArgStr ''25''))) = Inr 25"
    "net ?w = map Raises [] @ Responds channel_page # map Raises [] @ Responds no_channel # []"
    by (simp_all add: forbidden_def args_with_def world0_def sizes_def)
  have o: "fetched ?w = []" "files ?w = []"
    "url (args_with ''a/b'' (ArgStr ''25'')) = ''https://www.youtube.com/c/x''"
    "validation_url (key (args_with ''a/b'' (ArgStr ''25'')))
       = ''https://youtube.googleapis.com/youtube/v3/channels?part=contentDetails&id=UCK8sQmJBp8GCxrOtXWBpyEA&maxResults=50&key=K''"
    by (simp_all add: world0_def args_with_def validation_url_def)
  show ?thesis
    using forbidden_name_returns [OF h] h(1,2,3)
    by (simp add: o)
qed

theorem forbidden_name_exit_counterexample:
  "CHR ''/'' \<in> set forbidden \<and> CHR ''/'' \<in> set (out (args_with ''a/b'' (ArgInt 50)))
   \<and> exit_status (fst (main sizes (args_with ''a/b'' (ArgInt 50))
                         (world0 [Responds channel_page, Responds no_channel]))) = Some 0"
  by (simp add: main_def get_args_def correct_args_def validate_args_def stubborn_request_def
      os_can_save_def forbidden_def args_with_def world0_def print_def default_max_results_def
      channel_page_def no_channel_def ok_def)

end
